theory Spec2Isabelle
  imports Main "HOL-Library.AList"
begin

section \<open>The presence and relay hub of websockets-server.js\<close>

text \<open>
  The server keeps five process-wide JavaScript \<^verbatim>\<open>Map\<close>s and registers one handler per
  client event. Each handler is embedded as a function from the state before the call to the
  state after it, together with the trace of calls the handler makes into Socket.IO and into
  the persistence API, in program order.

  A JavaScript \<^verbatim>\<open>Map\<close> iterates in insertion order, keeps the position of a key that is
  overwritten and puts a new key last: this is an association list under \<open>AList.update\<close>,
  \<open>AList.delete\<close> and \<open>map_of\<close>. A JavaScript \<^verbatim>\<open>Set\<close> is a list without repetition.
\<close>

subsection \<open>Values\<close>

text \<open>
  A JavaScript value as the server meets it in a token, in a handshake or in the payload of an
  event. A number is given by its decimal form, which is what a template literal prints and
  what decides whether two numbers are the same key of a \<^verbatim>\<open>Map\<close>. An object, an array or a
  function is a reference: its identity, and what a template literal prints for it.
\<close>

datatype jsval =
    JUndefined
  | JNull
  | JBool bool
  | JNum string
  | JStr string
  | JRef nat string

type_synonym socket_id = string

text \<open>The value of one \<^verbatim>\<open>new Date()\<close>.\<close>

type_synonym timestamp = nat

text \<open>A payload the server only passes on (a post, a stored message, a map value).\<close>

type_synonym json = string

datatype status = Online | Offline

text \<open>The values that count as false in a condition.\<close>

fun falsy :: "jsval \<Rightarrow> bool" where
  "falsy JUndefined = True"
| "falsy JNull = True"
| "falsy (JBool b) = (\<not> b)"
| "falsy (JNum n) = (n = ''0'' \<or> n = ''NaN'')"
| "falsy (JStr s) = (s = [])"
| "falsy (JRef i s) = False"

text \<open>\<^verbatim>\<open>a || b\<close>.\<close>

definition js_or :: "jsval \<Rightarrow> jsval \<Rightarrow> jsval" where
  "js_or a b = (if falsy a then b else a)"

text \<open>A value inside a template literal.\<close>

fun js_str :: "jsval \<Rightarrow> string" where
  "js_str JUndefined = ''undefined''"
| "js_str JNull = ''null''"
| "js_str (JBool b) = (if b then ''true'' else ''false'')"
| "js_str (JNum n) = n"
| "js_str (JStr s) = s"
| "js_str (JRef i s) = s"

text \<open>\<^verbatim>\<open>Set.prototype.add\<close> and \<^verbatim>\<open>Set.prototype.delete\<close>.\<close>

definition Set_add :: "'a \<Rightarrow> 'a list \<Rightarrow> 'a list" where
  "Set_add x xs = (if x \<in> set xs then xs else xs @ [x])"

definition Set_delete :: "'a \<Rightarrow> 'a list \<Rightarrow> 'a list" where
  "Set_delete x xs = removeAll x xs"

text \<open>\<^verbatim>\<open>Map.prototype.has\<close>.\<close>

definition has :: "('k \<times> 'v) list \<Rightarrow> 'k \<Rightarrow> bool" where
  "has m k = (map_of m k \<noteq> None)"

subsection \<open>Authentication\<close>

text \<open>
  What \<^verbatim>\<open>jwt.verify\<close> returns for a token it accepts: the payload, which is an object, or a
  string when the token was signed over a plain string.
\<close>

record decoded =
  decoded_id :: jsval
  decoded_sub :: jsval
  decoded_name :: jsval
  decoded_email :: jsval
  decoded_picture :: jsval
  decoded_image :: jsval

datatype jwt_payload = ObjectPayload decoded | StringPayload string

text \<open>
  The function \<^verbatim>\<open>String.prototype.sub\<close>: every string has it as its property \<^verbatim>\<open>sub\<close>.
\<close>

definition String_prototype_sub :: jsval where
  "String_prototype_sub = JRef 0 ''function sub() { [native code] }''"

text \<open>
  The six properties that \<^verbatim>\<open>verifyToken\<close> reads of the payload. An object has the fields of
  its own (a missing one is \<^verbatim>\<open>undefined\<close>); a string has none of the six but \<^verbatim>\<open>sub\<close>.
\<close>

fun properties :: "jwt_payload \<Rightarrow> decoded" where
  "properties (ObjectPayload d) = d"
| "properties (StringPayload p) =
     \<lparr>decoded_id = JUndefined, decoded_sub = String_prototype_sub, decoded_name = JUndefined,
      decoded_email = JUndefined, decoded_picture = JUndefined, decoded_image = JUndefined\<rparr>"

record user =
  user_id :: jsval
  user_name :: jsval
  user_email :: jsval
  user_image :: jsval

text \<open>
  \<^verbatim>\<open>jwt.verify\<close> belongs to a library: it is the parameter \<open>jwt_verify\<close>, which gives
  \<open>None\<close> where the library throws. It throws for every token that is not a string.
\<close>

definition verifyToken :: "(string \<Rightarrow> jwt_payload option) \<Rightarrow> jsval \<Rightarrow> user option" where
  "verifyToken jwt_verify token =
     (case token of
        JStr t \<Rightarrow>
          (case jwt_verify t of
             None \<Rightarrow> None
           | Some payload \<Rightarrow>
               (let decoded = properties payload
                in Some \<lparr>user_id = js_or (decoded_id decoded) (decoded_sub decoded),
                         user_name = decoded_name decoded,
                         user_email = decoded_email decoded,
                         user_image = js_or (decoded_picture decoded) (decoded_image decoded)\<rparr>))
      | _ \<Rightarrow> None)"

text \<open>
  The middleware \<^verbatim>\<open>io.use\<close>: the error handed to \<^verbatim>\<open>next\<close>, or the user stored in the
  socket. Nothing inside its \<^verbatim>\<open>try\<close> block throws, \<^verbatim>\<open>verifyToken\<close> catching what
  \<^verbatim>\<open>jwt.verify\<close> throws, so the third error of the source is never handed on.
\<close>

definition io_use :: "(string \<Rightarrow> jwt_payload option) \<Rightarrow> jsval \<Rightarrow> string + user" where
  "io_use jwt_verify token =
     (if falsy token then Inl ''Authentication token required''
      else (case verifyToken jwt_verify token of
              None \<Rightarrow> Inl ''Invalid authentication token''
            | Some u \<Rightarrow> Inr u))"

record socket =
  socket_id :: socket_id
  handshake_token :: jsval
  data_user :: user

subsection \<open>The five maps\<close>

text \<open>An entry of \<^verbatim>\<open>activeUsers\<close>.\<close>

record presence =
  p_id :: jsval
  p_name :: jsval
  p_image :: jsval
  p_status :: status
  p_lastActive :: timestamp
  p_socketId :: socket_id

text \<open>An entry of an inner map of \<^verbatim>\<open>communityMembers\<close>.\<close>

record member =
  m_id :: jsval
  m_name :: jsval
  m_image :: jsval
  m_status :: status
  m_lastActive :: timestamp

text \<open>
  Nothing in the program writes an entry of \<^verbatim>\<open>channelMembers\<close> or \<^verbatim>\<open>typingUsers\<close>, so
  the values of their inner maps have no shape in the source: they are opaque.
\<close>

record state =
  activeUsers :: "(jsval \<times> presence) list"
  userSockets :: "(jsval \<times> socket_id list) list"
  communityMembers :: "(string \<times> (jsval \<times> member) list) list"
  channelMembers :: "(string \<times> (jsval \<times> json) list) list"
  typingUsers :: "(string \<times> (jsval \<times> json) list) list"

definition init_state :: state where
  "init_state = \<lparr>activeUsers = [], userSockets = [], communityMembers = [],
                  channelMembers = [], typingUsers = []\<rparr>"

subsection \<open>Calls into Socket.IO and the persistence API\<close>

text \<open>The \<^verbatim>\<open>user\<close> object of a \<^verbatim>\<open>community:member:joined\<close> event.\<close>

record joined_user =
  j_id :: jsval
  j_name :: jsval
  j_image :: jsval
  j_status :: status

text \<open>One constructor per event name, carrying the fields of its payload.\<close>

datatype event =
    UserStatus jsval status timestamp
  | CommunityMemberJoined string joined_user
  | CommunityMembers string "member list"
  | NewPost json
  | DirectMessageNew "json option"
  | DirectMessageSent "json option"
  | ErrorEvent string
  | CommunityMemberLeft string jsval
  | ChannelMemberLeft string jsval
  | ChannelTyping string jsval bool

text \<open>
  Whom an \<^verbatim>\<open>emit\<close> addresses: \<^verbatim>\<open>io.emit\<close> is \<open>ToAll\<close>, \<^verbatim>\<open>io.to(r).emit\<close> is \<open>ToRoom r\<close>,
  \<^verbatim>\<open>socket.to(r).emit\<close> is \<open>ToRoomExcept r\<close> of that socket, \<^verbatim>\<open>socket.emit\<close> is \<open>ToSelf\<close>.
\<close>

datatype target =
    ToAll
  | ToRoom string
  | ToRoomExcept string socket_id
  | ToSelf socket_id

text \<open>The fields of a direct message that are sent to the API.\<close>

record message =
  chatId :: jsval
  content :: jsval
  mediaUrl :: jsval
  mediaType :: jsval

datatype request_body = PostBody json | MessageBody message

text \<open>
  \<open>Join\<close> is \<^verbatim>\<open>socket.join\<close>, \<open>Emit\<close> any of the four \<^verbatim>\<open>emit\<close>s, \<open>Fetch\<close> the POST request
  with its path, bearer token and body.
\<close>

datatype effect =
    Join socket_id string
  | Emit target event
  | Fetch string jsval request_body

text \<open>
  What comes back from \<^verbatim>\<open>fetch\<close> and from reading the response: the request may reject; the
  response has its \<^verbatim>\<open>ok\<close> flag; its body may fail to parse, may be \<^verbatim>\<open>null\<close> (reading
  \<^verbatim>\<open>.message\<close> of it throws), or is an object whose \<^verbatim>\<open>message\<close> field may be missing.
\<close>

datatype response_body = BodyInvalid | BodyNull | BodyObject "json option"

datatype fetch_outcome = FetchRejected | FetchResponse bool response_body

subsection \<open>The connection handler\<close>

definition connection :: "socket \<Rightarrow> timestamp \<Rightarrow> timestamp \<Rightarrow> state \<Rightarrow> state \<times> effect list" where
  "connection sock now1 now2 s =
     (let userId = user_id (data_user sock);
          username = user_name (data_user sock);
          userImage = user_image (data_user sock);
          au = AList.update userId
                 \<lparr>p_id = userId, p_name = username, p_image = userImage, p_status = Online,
                  p_lastActive = now1, p_socketId = socket_id sock\<rparr>
                 (activeUsers s);
          us1 = (if \<not> has (userSockets s) userId then AList.update userId [] (userSockets s)
                 else userSockets s);
          us2 = (case map_of us1 userId of
                   None \<Rightarrow> us1
                 | Some sockets \<Rightarrow> AList.update userId (Set_add (socket_id sock) sockets) us1)
      in (s\<lparr>activeUsers := au, userSockets := us2\<rparr>,
          [Join (socket_id sock) (''user:'' @ js_str userId),
           Emit ToAll (UserStatus userId Online now2)]))"

subsection \<open>joinCommunity\<close>

definition joinCommunity :: "socket \<Rightarrow> string \<Rightarrow> timestamp \<Rightarrow> state \<Rightarrow> state \<times> effect list" where
  "joinCommunity sock communityId now s =
     (let userId = user_id (data_user sock);
          username = user_name (data_user sock);
          userImage = user_image (data_user sock);
          room = ''community:'' @ communityId;
          cm1 = (if \<not> has (communityMembers s) communityId
                 then AList.update communityId [] (communityMembers s)
                 else communityMembers s);
          members = (case map_of cm1 communityId of None \<Rightarrow> [] | Some m \<Rightarrow> m);
          members' = AList.update userId
                       \<lparr>m_id = userId, m_name = username, m_image = userImage,
                        m_status = Online, m_lastActive = now\<rparr>
                       members;
          cm2 = AList.update communityId members' cm1
      in (s\<lparr>communityMembers := cm2\<rparr>,
          [Join (socket_id sock) room,
           Emit (ToRoomExcept room (socket_id sock))
             (CommunityMemberJoined communityId
                \<lparr>j_id = userId, j_name = username, j_image = userImage, j_status = Online\<rparr>),
           Emit (ToSelf (socket_id sock)) (CommunityMembers communityId (map snd members'))]))"

subsection \<open>newPost\<close>

text \<open>
  The broadcast comes first. The response of the API is never read, and a rejected request
  is only logged, so the outcome of the request changes nothing.
\<close>

definition newPost :: "socket \<Rightarrow> json \<Rightarrow> fetch_outcome \<Rightarrow> state \<Rightarrow> state \<times> effect list" where
  "newPost sock post outcome s =
     (s, [Emit ToAll (NewPost post),
          Fetch ''/api/posts'' (handshake_token sock) (PostBody post)])"

subsection \<open>direct:message\<close>

record direct_data =
  recipientId :: jsval
  message :: "message option"

text \<open>The request succeeded: everything of the \<^verbatim>\<open>try\<close> block up to the first emit went through.\<close>

fun saved :: "fetch_outcome \<Rightarrow> json option option" where
  "saved (FetchResponse True (BodyObject m)) = Some m"
| "saved _ = None"

text \<open>
  Destructuring a missing payload throws outside the \<^verbatim>\<open>try\<close> block: the handler's promise
  rejects and nothing is emitted (\<open>Inl\<close>). A payload without \<^verbatim>\<open>message\<close> throws inside it,
  before the request is made. The state is the one the continuation after \<^verbatim>\<open>await\<close> sees.
\<close>

datatype unhandled = TypeError

definition direct_message ::
    "socket \<Rightarrow> direct_data option \<Rightarrow> fetch_outcome \<Rightarrow> state \<Rightarrow> unhandled + state \<times> effect list" where
  "direct_message sock data outcome s =
     (case data of
        None \<Rightarrow> Inl TypeError
      | Some d \<Rightarrow>
          (case message d of
             None \<Rightarrow> Inr (s, [Emit (ToSelf (socket_id sock)) (ErrorEvent ''Failed to send message'')])
           | Some msg \<Rightarrow>
               (let request = Fetch ''/api/chat/messages'' (handshake_token sock) (MessageBody msg)
                in case saved outcome of
                     None \<Rightarrow>
                       Inr (s, [request,
                                Emit (ToSelf (socket_id sock)) (ErrorEvent ''Failed to send message'')])
                   | Some savedMessage \<Rightarrow>
                       Inr (s, [request]
                               @ (if has (userSockets s) (recipientId d)
                                  then map (\<lambda>socketId. Emit (ToRoom socketId) (DirectMessageNew savedMessage))
                                         (case map_of (userSockets s) (recipientId d) of
                                            None \<Rightarrow> [] | Some sockets \<Rightarrow> sockets)
                                  else [])
                               @ [Emit (ToSelf (socket_id sock)) (DirectMessageSent savedMessage)]))))"

subsection \<open>disconnect\<close>

text \<open>
  Each of the three clean-up loops walks the entries of an outer map in order; where the inner
  map has the user, it deletes the user there and emits one event to the room of that entry.
  \<open>notify\<close> is the emit of the loop.
\<close>

fun remove_from_all ::
    "jsval \<Rightarrow> (string \<Rightarrow> effect) \<Rightarrow> (string \<times> (jsval \<times> 'v) list) list
       \<Rightarrow> (string \<times> (jsval \<times> 'v) list) list \<times> effect list" where
  "remove_from_all userId notify [] = ([], [])"
| "remove_from_all userId notify ((g, members) # rest) =
     (let (rest', effs) = remove_from_all userId notify rest
      in if has members userId
         then ((g, AList.delete userId members) # rest', notify g # effs)
         else ((g, members) # rest', effs))"

definition community_left :: "jsval \<Rightarrow> string \<Rightarrow> effect" where
  "community_left userId communityId =
     Emit (ToRoom (''community:'' @ communityId)) (CommunityMemberLeft communityId userId)"

definition channel_left :: "jsval \<Rightarrow> string \<Rightarrow> effect" where
  "channel_left userId channelId =
     Emit (ToRoom (''channel:'' @ channelId)) (ChannelMemberLeft channelId userId)"

definition typing_stopped :: "jsval \<Rightarrow> string \<Rightarrow> effect" where
  "typing_stopped userId channelId =
     Emit (ToRoom (''channel:'' @ channelId)) (ChannelTyping channelId userId False)"

text \<open>Lines 212 to 217: the record, if there is one, goes offline and gets a new time.\<close>

definition set_offline :: "jsval \<Rightarrow> timestamp \<Rightarrow> (jsval \<times> presence) list \<Rightarrow> (jsval \<times> presence) list" where
  "set_offline userId now au =
     (case map_of au userId of
        None \<Rightarrow> au
      | Some userData \<Rightarrow>
          AList.update userId (userData\<lparr>p_status := Offline, p_lastActive := now\<rparr>) au)"

definition disconnect :: "socket \<Rightarrow> timestamp \<Rightarrow> timestamp \<Rightarrow> state \<Rightarrow> state \<times> effect list" where
  "disconnect sock now1 now2 s =
     (let userId = user_id (data_user sock)
      in case map_of (userSockets s) userId of
           None \<Rightarrow> (s, [])
         | Some sockets \<Rightarrow>
             (let sockets' = Set_delete (socket_id sock) sockets;
                  us = AList.update userId sockets' (userSockets s)
              in if sockets' = []
                 then
                   (let au = set_offline userId now1 (activeUsers s);
                        (cm, left1) = remove_from_all userId (community_left userId) (communityMembers s);
                        (ch, left2) = remove_from_all userId (channel_left userId) (channelMembers s);
                        (ty, stopped) = remove_from_all userId (typing_stopped userId) (typingUsers s)
                    in (\<lparr>activeUsers = au, userSockets = us, communityMembers = cm,
                         channelMembers = ch, typingUsers = ty\<rparr>,
                        Emit ToAll (UserStatus userId Offline now2) # left1 @ left2 @ stopped))
                 else (s\<lparr>userSockets := us\<rparr>, [])))"

subsection \<open>The server as a whole\<close>

text \<open>
  What can happen to the server: a connection attempt with the token of its handshake, one of
  the three events with a handler, an event without one (Socket.IO drops it), and the
  disconnection of a socket.
\<close>

datatype op =
    OpConnect socket_id jsval timestamp timestamp
  | OpJoinCommunity socket string timestamp
  | OpNewPost socket json fetch_outcome
  | OpDirectMessage socket "direct_data option" fetch_outcome
  | OpOther socket string json
  | OpDisconnect socket timestamp timestamp

text \<open>A connection the middleware refuses never reaches the connection handler.\<close>

fun step :: "(string \<Rightarrow> jwt_payload option) \<Rightarrow> op \<Rightarrow> state \<Rightarrow> state \<times> effect list" where
  "step jwt_verify (OpConnect sid token now1 now2) s =
     (case io_use jwt_verify token of
        Inl err \<Rightarrow> (s, [])
      | Inr u \<Rightarrow> connection \<lparr>socket_id = sid, handshake_token = token, data_user = u\<rparr> now1 now2 s)"
| "step jwt_verify (OpJoinCommunity sock communityId now) s = joinCommunity sock communityId now s"
| "step jwt_verify (OpNewPost sock post outcome) s = newPost sock post outcome s"
| "step jwt_verify (OpDirectMessage sock data outcome) s =
     (case direct_message sock data outcome s of Inl err \<Rightarrow> (s, []) | Inr r \<Rightarrow> r)"
| "step jwt_verify (OpOther sock name payload) s = (s, [])"
| "step jwt_verify (OpDisconnect sock now1 now2) s = disconnect sock now1 now2 s"

text \<open>The state after a sequence of operations, from a given state.\<close>

fun run :: "(string \<Rightarrow> jwt_payload option) \<Rightarrow> op list \<Rightarrow> state \<Rightarrow> state" where
  "run jwt_verify [] s = s"
| "run jwt_verify (x # xs) s = run jwt_verify xs (fst (step jwt_verify x s))"

subsection \<open>Reading the state\<close>

text \<open>The open handles of a user, and whether the presence table has the user online.\<close>

definition handles :: "state \<Rightarrow> jsval \<Rightarrow> socket_id list" where
  "handles s u = (case map_of (userSockets s) u of None \<Rightarrow> [] | Some sockets \<Rightarrow> sockets)"

definition online :: "state \<Rightarrow> jsval \<Rightarrow> bool" where
  "online s u = (case map_of (activeUsers s) u of None \<Rightarrow> False | Some r \<Rightarrow> p_status r = Online)"

text \<open>Whether a user is in the inner map of a group.\<close>

definition is_member :: "(string \<times> (jsval \<times> 'v) list) list \<Rightarrow> string \<Rightarrow> jsval \<Rightarrow> bool" where
  "is_member groups g u = (case map_of groups g of None \<Rightarrow> False | Some m \<Rightarrow> has m u)"

definition members_of :: "(string \<times> (jsval \<times> 'v) list) list \<Rightarrow> string \<Rightarrow> (jsval \<times> 'v) list" where
  "members_of groups g = (case map_of groups g of None \<Rightarrow> [] | Some m \<Rightarrow> m)"

subsection \<open>Reading a trace\<close>

text \<open>The emits of a trace, in order.\<close>

fun emits :: "effect list \<Rightarrow> (target \<times> event) list" where
  "emits [] = []"
| "emits (Emit t e # effs) = (t, e) # emits effs"
| "emits (x # effs) = emits effs"

text \<open>
  Socket.IO's addressing, for an open socket \<open>h\<close> that sits in the rooms \<open>rooms h\<close>: an emit
  to all reaches it, an emit to a room reaches it if it is in the room, an emit of another
  socket to a room reaches it if it is in the room and is not that socket, and an emit of a
  socket to itself reaches that socket only. The rooms are the library's state, so they are a
  parameter here.
\<close>

fun addressed :: "(socket_id \<Rightarrow> string list) \<Rightarrow> target \<Rightarrow> socket_id \<Rightarrow> bool" where
  "addressed rooms ToAll h = True"
| "addressed rooms (ToRoom r) h = (r \<in> set (rooms h))"
| "addressed rooms (ToRoomExcept r x) h = (r \<in> set (rooms h) \<and> h \<noteq> x)"
| "addressed rooms (ToSelf x) h = (h = x)"

text \<open>The events of a trace that reach the socket \<open>h\<close>, in order.\<close>

definition inbox :: "(socket_id \<Rightarrow> string list) \<Rightarrow> effect list \<Rightarrow> socket_id \<Rightarrow> event list" where
  "inbox rooms effs h = map snd (filter (\<lambda>(t, e). addressed rooms t h) (emits effs))"

text \<open>The two notifications of the disconnect handler that go to a channel.\<close>

fun channel_event :: "event \<Rightarrow> bool" where
  "channel_event (ChannelMemberLeft c u) = True"
| "channel_event (ChannelTyping c u b) = True"
| "channel_event e = False"

subsection \<open>Well-formed maps\<close>

text \<open>
  What JavaScript guarantees of a \<^verbatim>\<open>Map\<close> and a \<^verbatim>\<open>Set\<close>: no key and no element occurs
  twice.
\<close>

definition wf_groups :: "(string \<times> (jsval \<times> 'v) list) list \<Rightarrow> bool" where
  "wf_groups groups =
     (distinct (map fst groups) \<and> list_all (\<lambda>(g, m). distinct (map fst m)) groups)"

definition wf_state :: "state \<Rightarrow> bool" where
  "wf_state s =
     (distinct (map fst (activeUsers s))
      \<and> distinct (map fst (userSockets s))
      \<and> list_all (\<lambda>(u, sockets). distinct sockets) (userSockets s)
      \<and> wf_groups (communityMembers s)
      \<and> wf_groups (channelMembers s)
      \<and> wf_groups (typingUsers s))"

subsection \<open>Two users with two devices each\<close>

definition alice :: user where
  "alice = \<lparr>user_id = JStr ''alice'', user_name = JStr ''Alice'', user_email = JUndefined,
            user_image = JUndefined\<rparr>"

definition bob :: user where
  "bob = \<lparr>user_id = JStr ''bob'', user_name = JStr ''Bob'', user_email = JUndefined,
          user_image = JUndefined\<rparr>"

definition a1 :: socket where
  "a1 = \<lparr>socket_id = ''a1'', handshake_token = JStr ''tokA'', data_user = alice\<rparr>"

definition a2 :: socket where
  "a2 = \<lparr>socket_id = ''a2'', handshake_token = JStr ''tokA'', data_user = alice\<rparr>"

definition b1 :: socket where
  "b1 = \<lparr>socket_id = ''b1'', handshake_token = JStr ''tokB'', data_user = bob\<rparr>"

definition b2 :: socket where
  "b2 = \<lparr>socket_id = ''b2'', handshake_token = JStr ''tokB'', data_user = bob\<rparr>"

definition two_devices_each :: state where
  "two_devices_each =
     fst (connection b2 7 8 (fst (connection b1 5 6 (fst (connection a2 3 4
       (fst (connection a1 1 2 init_state)))))))"

text \<open>Every socket is in the room of its own id and in the room of its user.\<close>

definition own_rooms :: "socket_id \<Rightarrow> string list" where
  "own_rooms h = (if h = ''a1'' \<or> h = ''a2'' then [h, ''user:alice''] else [h, ''user:bob''])"

definition hello :: direct_data where
  "hello = \<lparr>recipientId = JStr ''bob'',
            message = Some \<lparr>chatId = JStr ''c1'', content = JStr ''hi'', mediaUrl = JUndefined,
                            mediaType = JUndefined\<rparr>\<rparr>"

lemmas fixtures = alice_def bob_def a1_def a2_def b1_def b2_def two_devices_each_def
  own_rooms_def hello_def init_state_def

subsection \<open>Presence follows the handles\<close>

text \<open>The presence table has a user online exactly when the user has a handle.\<close>

definition presence_inv :: "state \<Rightarrow> bool" where
  "presence_inv s = (\<forall>u. online s u \<longleftrightarrow> handles s u \<noteq> [])"

text \<open>
  Alice and bob with one device each, in communities, and with entries in the two channel
  maps (which no run of the server produces: they stand for what the clean-up would meet).
\<close>

definition in_groups :: state where
  "in_groups =
     \<lparr>activeUsers =
        [(JStr ''alice'', \<lparr>p_id = JStr ''alice'', p_name = JStr ''Alice'', p_image = JUndefined,
            p_status = Online, p_lastActive = 1, p_socketId = ''a1''\<rparr>),
         (JStr ''bob'', \<lparr>p_id = JStr ''bob'', p_name = JStr ''Bob'', p_image = JUndefined,
            p_status = Online, p_lastActive = 3, p_socketId = ''b1''\<rparr>)],
      userSockets = [(JStr ''alice'', [''a1'']), (JStr ''bob'', [''b1''])],
      communityMembers =
        [(''c1'', [(JStr ''alice'', \<lparr>m_id = JStr ''alice'', m_name = JStr ''Alice'', m_image = JUndefined,
                      m_status = Online, m_lastActive = 6\<rparr>),
                   (JStr ''bob'', \<lparr>m_id = JStr ''bob'', m_name = JStr ''Bob'', m_image = JUndefined,
                      m_status = Online, m_lastActive = 8\<rparr>)]),
         (''c2'', [(JStr ''alice'', \<lparr>m_id = JStr ''alice'', m_name = JStr ''Alice'', m_image = JUndefined,
                      m_status = Online, m_lastActive = 7\<rparr>)]),
         (''c3'', [(JStr ''bob'', \<lparr>m_id = JStr ''bob'', m_name = JStr ''Bob'', m_image = JUndefined,
                      m_status = Online, m_lastActive = 9\<rparr>)])],
      channelMembers = [(''general'', [(JStr ''alice'', ''m1''), (JStr ''bob'', ''m2'')]),
                        (''random'', [(JStr ''bob'', ''m3'')])],
      typingUsers = [(''general'', [(JStr ''alice'', ''t1'')])]\<rparr>"

subsection \<open>The channel maps are never written\<close>

definition no_channels :: "state \<Rightarrow> bool" where
  "no_channels s = (channelMembers s = [] \<and> typingUsers s = [])"

subsection \<open>Socket.IO in front of the handlers\<close>

text \<open>
  The handlers are called by Socket.IO, which is not code of this repository. What the server
  relies on of it is modelled here, next to the state of the handlers (\<open>hub\<close>):
  \<^item> the library gives every socket an id of its own, never one it has used before
    (\<open>used_ids\<close>);
  \<^item> it knows which sockets are open (\<open>open_sockets\<close>); an event of a client arrives only
    on an open socket, and \<^verbatim>\<open>disconnect\<close> is fired for an open socket only, which is then
    open no more: asking a closed socket to disconnect does nothing;
  \<^item> it keeps the rooms of every open socket (\<open>socket_rooms\<close>): the room of its own id from the
    connection on, and every room of a \<^verbatim>\<open>socket.join\<close>; a socket that closes has left its
    rooms when the \<^verbatim>\<open>disconnect\<close> handler runs.
\<close>

record server =
  hub :: state
  open_sockets :: "socket list"
  used_ids :: "socket_id list"
  socket_rooms :: "(socket_id \<times> string list) list"

definition init_server :: server where
  "init_server = \<lparr>hub = init_state, open_sockets = [], used_ids = [], socket_rooms = []\<rparr>"

text \<open>The rooms of a socket, for \<open>addressed\<close> and \<open>inbox\<close>.\<close>

definition rooms_of :: "server \<Rightarrow> socket_id \<Rightarrow> string list" where
  "rooms_of sv h = (case map_of (socket_rooms sv) h of None \<Rightarrow> [] | Some rs \<Rightarrow> rs)"

text \<open>The \<^verbatim>\<open>socket.join\<close>s of a trace, applied to the rooms.\<close>

fun joins :: "effect list \<Rightarrow> (socket_id \<times> string list) list \<Rightarrow> (socket_id \<times> string list) list" where
  "joins [] rs = rs"
| "joins (Join h room # effs) rs =
     joins effs (AList.update h (Set_add room (case map_of rs h of None \<Rightarrow> [] | Some r \<Rightarrow> r)) rs)"
| "joins (x # effs) rs = joins effs rs"

text \<open>
  One operation as the library lets it through. The continuation of \<^verbatim>\<open>direct:message\<close>
  after its \<^verbatim>\<open>await\<close> may run when the socket has closed, so that operation is not
  restricted to open sockets. In all cases the handlers do what \<open>step\<close> does or nothing.
\<close>

fun serve :: "(string \<Rightarrow> jwt_payload option) \<Rightarrow> op \<Rightarrow> server \<Rightarrow> server \<times> effect list" where
  "serve jwt_verify (OpConnect sid token now1 now2) sv =
     (if sid \<in> set (used_ids sv) then (sv, [])
      else (case io_use jwt_verify token of
              Inl err \<Rightarrow> (sv\<lparr>used_ids := sid # used_ids sv\<rparr>, [])
            | Inr u \<Rightarrow>
                (let sock = \<lparr>socket_id = sid, handshake_token = token, data_user = u\<rparr>;
                     r = connection sock now1 now2 (hub sv)
                 in (\<lparr>hub = fst r, open_sockets = open_sockets sv @ [sock],
                      used_ids = sid # used_ids sv,
                      socket_rooms = joins (snd r) (AList.update sid [sid] (socket_rooms sv))\<rparr>,
                     snd r))))"
| "serve jwt_verify (OpDisconnect sock now1 now2) sv =
     (if sock \<in> set (open_sockets sv)
      then (let r = disconnect sock now1 now2 (hub sv)
            in (\<lparr>hub = fst r, open_sockets = removeAll sock (open_sockets sv),
                 used_ids = used_ids sv,
                 socket_rooms = AList.delete (socket_id sock) (socket_rooms sv)\<rparr>,
                snd r))
      else (sv, []))"
| "serve jwt_verify (OpJoinCommunity sock communityId now) sv =
     (if sock \<in> set (open_sockets sv)
      then (let r = joinCommunity sock communityId now (hub sv)
            in (sv\<lparr>hub := fst r, socket_rooms := joins (snd r) (socket_rooms sv)\<rparr>, snd r))
      else (sv, []))"
| "serve jwt_verify (OpNewPost sock post outcome) sv =
     (if sock \<in> set (open_sockets sv)
      then (let r = newPost sock post outcome (hub sv) in (sv\<lparr>hub := fst r\<rparr>, snd r))
      else (sv, []))"
| "serve jwt_verify (OpDirectMessage sock data outcome) sv =
     (let r = step jwt_verify (OpDirectMessage sock data outcome) (hub sv)
      in (sv\<lparr>hub := fst r\<rparr>, snd r))"
| "serve jwt_verify (OpOther sock name payload) sv = (sv, [])"

fun serve_all :: "(string \<Rightarrow> jwt_payload option) \<Rightarrow> op list \<Rightarrow> server \<Rightarrow> server" where
  "serve_all jwt_verify [] sv = sv"
| "serve_all jwt_verify (x # xs) sv = serve_all jwt_verify xs (fst (serve jwt_verify x sv))"

text \<open>A verifier that knows the tokens of alice and of bob; bob is named by \<^verbatim>\<open>sub\<close>.\<close>

definition demo_verify :: "string \<Rightarrow> jwt_payload option" where
  "demo_verify t =
     (if t = ''tokA''
      then Some (ObjectPayload \<lparr>decoded_id = JStr ''alice'', decoded_sub = JUndefined,
                  decoded_name = JStr ''Alice'', decoded_email = JUndefined,
                  decoded_picture = JUndefined, decoded_image = JUndefined\<rparr>)
      else if t = ''tokB''
      then Some (ObjectPayload \<lparr>decoded_id = JUndefined, decoded_sub = JStr ''bob'',
                  decoded_name = JStr ''Bob'', decoded_email = JUndefined,
                  decoded_picture = JUndefined, decoded_image = JUndefined\<rparr>)
      else None)"

text \<open>
  Alice opens two devices and joins a community from the first; bob joins it too; then the
  first device of alice closes.
\<close>

definition alice_left_one_device :: server where
  "alice_left_one_device =
     serve_all demo_verify
       [OpConnect ''a1'' (JStr ''tokA'') 1 2,
        OpConnect ''a2'' (JStr ''tokA'') 3 4,
        OpJoinCommunity a1 ''c1'' 5,
        OpConnect ''b1'' (JStr ''tokB'') 6 7,
        OpJoinCommunity b1 ''c1'' 8,
        OpDisconnect a1 9 10]
       init_server"

text \<open>The ids of the open sockets are used ids, and no two open sockets share an id.\<close>

definition server_inv :: "server \<Rightarrow> bool" where
  "server_inv sv =
     (list_all (\<lambda>x. socket_id x \<in> set (used_ids sv)) (open_sockets sv)
      \<and> distinct (map socket_id (open_sockets sv)))"


text \<open>Every open socket is among the handles of its user.\<close>

definition registered :: "server \<Rightarrow> bool" where
  "registered sv =
     list_all (\<lambda>x. socket_id x \<in> set (handles (hub sv) (user_id (data_user x))))
       (open_sockets sv)"

section \<open>Lemmas on the maps, the traces and the handlers\<close>

lemma emits_append: "emits (xs @ ys) = emits xs @ emits ys"
  by (induction xs rule: emits.induct) simp_all

lemma emits_map_Emit: "emits (map (\<lambda>x. Emit (t x) (e x)) xs) = map (\<lambda>x. (t x, e x)) xs"
  by (induction xs) simp_all

lemma has_iff: "has m k \<longleftrightarrow> k \<in> fst ` set m"
  by (simp add: has_def map_of_eq_None_iff)

lemma remove_from_all_fst:
  "fst (remove_from_all u notify gs) = map (\<lambda>p. (fst p, AList.delete u (snd p))) gs"
  by (induction gs) (auto simp: has_iff case_prod_unfold Let_def)

lemma remove_from_all_snd:
  "snd (remove_from_all u notify gs) = map (\<lambda>p. notify (fst p)) (filter (\<lambda>p. has (snd p) u) gs)"
  by (induction gs) (auto simp: case_prod_unfold Let_def)

lemma disconnect_userSockets:
  "userSockets (fst (disconnect sock now1 now2 s))
     = (case map_of (userSockets s) (user_id (data_user sock)) of
          None \<Rightarrow> userSockets s
        | Some sockets \<Rightarrow> AList.update (user_id (data_user sock)) (Set_delete (socket_id sock) sockets) (userSockets s))"
  by (simp add: disconnect_def Let_def split: option.splits prod.splits)

lemma disconnect_activeUsers:
  "activeUsers (fst (disconnect sock now1 now2 s))
     = (case map_of (userSockets s) (user_id (data_user sock)) of
          None \<Rightarrow> activeUsers s
        | Some sockets \<Rightarrow>
            if Set_delete (socket_id sock) sockets = []
            then set_offline (user_id (data_user sock)) now1 (activeUsers s)
            else activeUsers s)"
  by (simp add: disconnect_def Let_def split: option.splits prod.splits)

lemma handles_disconnect:
  "handles (fst (disconnect sock now1 now2 s)) u
     = (if u = user_id (data_user sock) then Set_delete (socket_id sock) (handles s u) else handles s u)"
  by (simp add: handles_def disconnect_userSockets update_conv' Set_delete_def split: option.splits)

lemma map_of_set_offline:
  "map_of (set_offline v now au) u
     = (if u = v then map_option (\<lambda>r. r\<lparr>p_status := Offline, p_lastActive := now\<rparr>) (map_of au u)
        else map_of au u)"
  by (simp add: set_offline_def update_conv' split: option.splits)

lemma online_disconnect:
  "online (fst (disconnect sock now1 now2 s)) u
     = (online s u \<and> \<not> (u = user_id (data_user sock) \<and> has (userSockets s) u
                          \<and> Set_delete (socket_id sock) (handles s u) = []))"
  by (auto simp add: online_def disconnect_activeUsers map_of_set_offline handles_def has_def
      split: option.splits)

lemma handles_connection:
  "handles (fst (connection sock now1 now2 s)) u
     = (if u = user_id (data_user sock) then Set_add (socket_id sock) (handles s u) else handles s u)"
  by (simp add: handles_def connection_def Let_def has_def update_conv' Set_add_def split: option.splits)

lemma online_connection:
  "online (fst (connection sock now1 now2 s)) u = (u = user_id (data_user sock) \<or> online s u)"
  by (simp add: online_def connection_def Let_def update_conv' split: option.splits)

lemma Set_add_not_Nil: "Set_add x xs \<noteq> []"
  by (auto simp: Set_add_def)

lemma joinCommunity_registry:
  "activeUsers (fst (joinCommunity sock c now s)) = activeUsers s"
  "userSockets (fst (joinCommunity sock c now s)) = userSockets s"
  "channelMembers (fst (joinCommunity sock c now s)) = channelMembers s"
  "typingUsers (fst (joinCommunity sock c now s)) = typingUsers s"
  by (simp_all add: joinCommunity_def Let_def)

lemma direct_message_state:
  "direct_message sock data outcome s = Inr (s', effs) \<Longrightarrow> s' = s"
  by (auto simp: direct_message_def Let_def split: option.splits)

lemma step_direct_state: "fst (step jv (OpDirectMessage sock data outcome) s) = s"
  by (auto simp: direct_message_def Let_def split: option.splits sum.splits)

lemma presence_inv_step: "presence_inv s \<Longrightarrow> presence_inv (fst (step jv x s))"
proof (cases x)
  case (OpConnect sid token n1 n2)
  assume "presence_inv s"
  then show ?thesis using OpConnect
    by (auto simp: presence_inv_def online_connection handles_connection Set_add_not_Nil split: sum.splits)
next
  case (OpJoinCommunity sock c now)
  assume "presence_inv s"
  then show ?thesis using OpJoinCommunity
    by (simp add: presence_inv_def online_def handles_def joinCommunity_registry)
next
  case (OpNewPost sock post outcome)
  assume "presence_inv s"
  then show ?thesis using OpNewPost by (simp add: newPost_def)
next
  case (OpDirectMessage sock data outcome)
  assume "presence_inv s"
  then show ?thesis using OpDirectMessage by (simp only: step_direct_state)
next
  case (OpOther sock name payload)
  assume "presence_inv s"
  then show ?thesis using OpOther by simp
next
  case (OpDisconnect sock n1 n2)
  assume "presence_inv s"
  then have inv: "\<And>u. online s u \<longleftrightarrow> handles s u \<noteq> []"
    by (simp add: presence_inv_def)
  have "online (fst (disconnect sock n1 n2 s)) u
          \<longleftrightarrow> handles (fst (disconnect sock n1 n2 s)) u \<noteq> []" for u
  proof (cases "has (userSockets s) u")
    case True
    then show ?thesis
      by (auto simp: online_disconnect handles_disconnect inv Set_delete_def)
  next
    case False
    then have "handles s u = []"
      by (simp add: handles_def has_def)
    then show ?thesis
      by (auto simp: online_disconnect handles_disconnect inv Set_delete_def)
  qed
  then show ?thesis using OpDisconnect
    by (simp add: presence_inv_def)
qed

lemma presence_inv_run: "presence_inv s \<Longrightarrow> presence_inv (run jv ops s)"
  by (induction ops arbitrary: s) (simp_all add: presence_inv_step)

lemma presence_inv_init: "presence_inv init_state"
  by (simp add: presence_inv_def online_def handles_def init_state_def)

lemma disconnect_closed_form:
  "disconnect sock n1 n2 s =
     (case map_of (userSockets s) (user_id (data_user sock)) of
        None \<Rightarrow> (s, [])
      | Some sockets \<Rightarrow>
          if Set_delete (socket_id sock) sockets = []
          then (\<lparr>activeUsers = set_offline (user_id (data_user sock)) n1 (activeUsers s),
                 userSockets = AList.update (user_id (data_user sock)) [] (userSockets s),
                 communityMembers =
                   fst (remove_from_all (user_id (data_user sock))
                          (community_left (user_id (data_user sock))) (communityMembers s)),
                 channelMembers =
                   fst (remove_from_all (user_id (data_user sock))
                          (channel_left (user_id (data_user sock))) (channelMembers s)),
                 typingUsers =
                   fst (remove_from_all (user_id (data_user sock))
                          (typing_stopped (user_id (data_user sock))) (typingUsers s))\<rparr>,
                Emit ToAll (UserStatus (user_id (data_user sock)) Offline n2)
                # snd (remove_from_all (user_id (data_user sock))
                         (community_left (user_id (data_user sock))) (communityMembers s))
                @ snd (remove_from_all (user_id (data_user sock))
                         (channel_left (user_id (data_user sock))) (channelMembers s))
                @ snd (remove_from_all (user_id (data_user sock))
                         (typing_stopped (user_id (data_user sock))) (typingUsers s)))
          else (s\<lparr>userSockets :=
                    AList.update (user_id (data_user sock)) (Set_delete (socket_id sock) sockets)
                      (userSockets s)\<rparr>, []))"
  by (simp add: disconnect_def Let_def case_prod_unfold split: option.splits)

lemma map_of_pruned:
  "map_of (map (\<lambda>p. (fst p, f (snd p))) gs) g = map_option f (map_of gs g)"
  by (induction gs) auto

lemma is_member_removed:
  "is_member (fst (remove_from_all u notify gs)) g v \<longleftrightarrow> v \<noteq> u \<and> is_member gs g v"
  by (auto simp: is_member_def remove_from_all_fst map_of_pruned has_def delete_conv'
      split: option.splits)

lemma is_member_iff:
  assumes "distinct (map fst gs)"
  shows "is_member gs g u \<longleftrightarrow> (\<exists>m. (g, m) \<in> set gs \<and> has m u)"
proof -
  have "(g, m) \<in> set gs \<longleftrightarrow> map_of gs g = Some m" for m
    using assms by simp
  then show ?thesis
    by (auto simp: is_member_def split: option.splits)
qed

lemma in_emits: "(t, e) \<in> set (emits effs) \<longleftrightarrow> Emit t e \<in> set effs"
  by (induction effs rule: emits.induct) auto

lemma removed_in_range: "x \<in> set (snd (remove_from_all u notify gs)) \<Longrightarrow> x \<in> range notify"
  by (auto simp: remove_from_all_snd)

lemma count_list_removed:
  assumes "inj notify" and "distinct (map fst gs)"
  shows "count_list (snd (remove_from_all u notify gs)) (notify g)
           = (if is_member gs g u then 1 else 0)"
  using assms(2)
proof (induction gs)
  case Nil
  then show ?case by (simp add: is_member_def)
next
  case (Cons p gs)
  obtain g' m where p: "p = (g', m)" by (cases p)
  from Cons.prems p have fresh: "g' \<notin> fst ` set gs" and d: "distinct (map fst gs)"
    by auto
  have none: "\<not> is_member gs g' u"
    using fresh by (force simp: is_member_iff [OF d])
  have eq: "notify g' = notify g \<longleftrightarrow> g' = g"
    using assms(1) by (auto dest: injD)
  have here: "is_member ((g', m) # gs) g u \<longleftrightarrow> (if g = g' then has m u else is_member gs g u)"
    by (simp add: is_member_def)
  show ?case
    using Cons.IH [OF d] none
    by (auto simp: here p case_prod_unfold Let_def eq)
qed

lemma count_list_removed_other:
  assumes "x \<notin> range notify"
  shows "count_list (snd (remove_from_all u notify gs)) x = 0"
  using assms by (induction gs) (auto simp: case_prod_unfold Let_def)

lemma in_removed:
  assumes "distinct (map fst gs)" and "x \<in> set (snd (remove_from_all u notify gs))"
  shows "\<exists>g. x = notify g \<and> is_member gs g u"
  using assms(2) by (force simp: remove_from_all_snd is_member_iff [OF assms(1)])

lemma inj_community_left: "inj (community_left u)"
  by (simp add: inj_def community_left_def)

lemma inj_channel_left: "inj (channel_left u)"
  by (simp add: inj_def channel_left_def)

lemma inj_typing_stopped: "inj (typing_stopped u)"
  by (simp add: inj_def typing_stopped_def)

lemma connection_groups:
  "communityMembers (fst (connection sock n1 n2 s)) = communityMembers s"
  "channelMembers (fst (connection sock n1 n2 s)) = channelMembers s"
  "typingUsers (fst (connection sock n1 n2 s)) = typingUsers s"
  by (simp_all add: connection_def Let_def split: option.splits)

lemma disconnect_channelMembers:
  "channelMembers (fst (disconnect sock n1 n2 s)) = channelMembers s
   \<or> channelMembers (fst (disconnect sock n1 n2 s))
        = fst (remove_from_all (user_id (data_user sock)) (channel_left (user_id (data_user sock)))
                 (channelMembers s))"
  by (simp add: disconnect_closed_form split: option.splits)

lemma disconnect_typingUsers:
  "typingUsers (fst (disconnect sock n1 n2 s)) = typingUsers s
   \<or> typingUsers (fst (disconnect sock n1 n2 s))
        = fst (remove_from_all (user_id (data_user sock)) (typing_stopped (user_id (data_user sock)))
                 (typingUsers s))"
  by (simp add: disconnect_closed_form split: option.splits)

lemma step_typingUsers:
  "typingUsers (fst (step jv x s)) = typingUsers s
   \<or> (\<exists>u notify. typingUsers (fst (step jv x s)) = fst (remove_from_all u notify (typingUsers s)))"
proof (cases x)
  case (OpConnect sid token n1 n2)
  then show ?thesis by (simp add: connection_groups split: sum.splits)
next
  case (OpJoinCommunity sock c now)
  then show ?thesis by (simp add: joinCommunity_registry)
next
  case (OpNewPost sock post outcome)
  then show ?thesis by (simp add: newPost_def)
next
  case (OpDirectMessage sock data outcome)
  then show ?thesis by (simp only: step_direct_state) simp
next
  case (OpOther sock name payload)
  then show ?thesis by simp
next
  case (OpDisconnect sock n1 n2)
  then show ?thesis using disconnect_typingUsers [of sock n1 n2 s] by auto
qed

lemma step_channelMembers:
  "channelMembers (fst (step jv x s)) = channelMembers s
   \<or> (\<exists>u notify. channelMembers (fst (step jv x s)) = fst (remove_from_all u notify (channelMembers s)))"
proof (cases x)
  case (OpConnect sid token n1 n2)
  then show ?thesis by (simp add: connection_groups split: sum.splits)
next
  case (OpJoinCommunity sock c now)
  then show ?thesis by (simp add: joinCommunity_registry)
next
  case (OpNewPost sock post outcome)
  then show ?thesis by (simp add: newPost_def)
next
  case (OpDirectMessage sock data outcome)
  then show ?thesis by (simp only: step_direct_state) simp
next
  case (OpOther sock name payload)
  then show ?thesis by simp
next
  case (OpDisconnect sock n1 n2)
  then show ?thesis using disconnect_channelMembers [of sock n1 n2 s] by auto
qed

lemma no_channels_step: "no_channels s \<Longrightarrow> no_channels (fst (step jv x s))"
  using step_channelMembers [of jv x s] step_typingUsers [of jv x s]
  by (auto simp: no_channels_def)

lemma no_channels_run: "no_channels s \<Longrightarrow> no_channels (run jv ops s)"
  by (induction ops arbitrary: s) (simp_all add: no_channels_step)

lemma channel_event_removed:
  "filter channel_event (map snd (emits (snd (remove_from_all u (community_left u) gs)))) = []"
  by (induction gs) (auto simp: case_prod_unfold Let_def community_left_def)

lemma direct_message_no_channel_event:
  "direct_message sock data outcome s = Inr (s', effs)
     \<Longrightarrow> filter channel_event (map snd (emits effs)) = []"
  by (auto simp: direct_message_def Let_def emits_append emits_map_Emit comp_def
      split: option.splits)

lemma no_channel_event_step:
  assumes "no_channels s"
  shows "filter channel_event (map snd (emits (snd (step jv x s)))) = []"
proof (cases x)
  case (OpConnect sid token n1 n2)
  then show ?thesis by (simp add: connection_def Let_def split: sum.splits)
next
  case (OpJoinCommunity sock c now)
  then show ?thesis by (simp add: joinCommunity_def Let_def)
next
  case (OpNewPost sock post outcome)
  then show ?thesis by (simp add: newPost_def)
next
  case (OpDirectMessage sock data outcome)
  then show ?thesis
    by (cases "direct_message sock data outcome s")
       (auto dest: direct_message_no_channel_event)
next
  case (OpOther sock name payload)
  then show ?thesis by simp
next
  case (OpDisconnect sock n1 n2)
  then show ?thesis using assms
    by (simp add: disconnect_closed_form no_channels_def emits_append channel_event_removed
        split: option.splits)
qed

lemma length_update_present:
  "k \<in> fst ` set al \<Longrightarrow> length (AList.update k v al) = length al"
  by (induction al) auto

lemma filter_key_update:
  "distinct (map fst al) \<Longrightarrow> filter (\<lambda>p. fst p = k) (AList.update k v al) = [(k, v)]"
  by (induction al) (auto simp: filter_empty_conv image_iff)

lemma map_fst_set_offline: "map fst (set_offline u now au) = map fst au"
  by (auto simp: set_offline_def update_keys map_of_eq_None_iff split: option.splits)

text \<open>
  The server registers no handler for a typing event. What it has of typing is the third
  clean-up loop of the disconnect handler.
\<close>

lemma typing_never_added:
  "is_member (typingUsers (fst (step jv x s))) c v \<Longrightarrow> is_member (typingUsers s) c v"
  using step_typingUsers [of jv x s] by (auto simp: is_member_removed)

lemma typing_event_direct_message:
  "direct_message sock data outcome s = Inr (s', effs) \<Longrightarrow> Emit t (ChannelTyping c v b) \<notin> set effs"
  by (auto simp: direct_message_def Let_def split: option.splits)

lemma typing_event_disconnect:
  assumes "Emit t (ChannelTyping c v b) \<in> set (snd (disconnect sock n1 n2 s))"
  shows "Emit t (ChannelTyping c v b) = typing_stopped (user_id (data_user sock)) c"
proof -
  let ?u = "user_id (data_user sock)"
  let ?L1 = "snd (remove_from_all ?u (community_left ?u) (communityMembers s))"
  let ?L2 = "snd (remove_from_all ?u (channel_left ?u) (channelMembers s))"
  let ?L3 = "snd (remove_from_all ?u (typing_stopped ?u) (typingUsers s))"
  from assms have "Emit t (ChannelTyping c v b) \<in> set ?L1 \<union> set ?L2 \<union> set ?L3"
    by (auto simp: disconnect_closed_form split: option.splits if_splits)
  moreover have "Emit t (ChannelTyping c v b) \<notin> set ?L1"
    by (auto dest: removed_in_range simp: community_left_def)
  moreover have "Emit t (ChannelTyping c v b) \<notin> set ?L2"
    by (auto dest: removed_in_range simp: channel_left_def)
  ultimately have "Emit t (ChannelTyping c v b) \<in> range (typing_stopped ?u)"
    by (auto dest: removed_in_range)
  then show ?thesis
    by (auto simp: typing_stopped_def)
qed

lemma typing_event_step:
  assumes "(t, ChannelTyping c v b) \<in> set (emits (snd (step jv x s)))"
  shows "b = False \<and> t = ToRoom (''channel:'' @ c)"
proof (cases x)
  case (OpConnect sid token n1 n2)
  then show ?thesis using assms by (simp add: connection_def Let_def split: sum.splits)
next
  case (OpJoinCommunity sock c' now)
  then show ?thesis using assms by (simp add: joinCommunity_def Let_def)
next
  case (OpNewPost sock post outcome)
  then show ?thesis using assms by (simp add: newPost_def)
next
  case (OpDirectMessage sock data outcome)
  then show ?thesis using assms
    by (cases "direct_message sock data outcome s")
       (auto simp: in_emits dest: typing_event_direct_message)
next
  case (OpOther sock name payload)
  then show ?thesis using assms by simp
next
  case (OpDisconnect sock n1 n2)
  then have "Emit t (ChannelTyping c v b) \<in> set (snd (disconnect sock n1 n2 s))"
    using assms by (simp add: in_emits)
  then show ?thesis
    by (auto dest: typing_event_disconnect simp: typing_stopped_def)
qed

text \<open>
  The theorems on the clean-up and on joining again ask that no key occurs twice in a map.
  Every state the server reaches is of that kind.
\<close>

lemma list_all_update:
  "list_all P al \<Longrightarrow> P (k, v) \<Longrightarrow> list_all P (AList.update k v al)"
  by (induction al) auto

lemma wf_groups_update:
  "wf_groups gs \<Longrightarrow> distinct (map fst m) \<Longrightarrow> wf_groups (AList.update g m gs)"
  by (simp add: wf_groups_def distinct_update list_all_update)

lemma wf_groups_lookup:
  "wf_groups gs \<Longrightarrow> map_of gs g = Some m \<Longrightarrow> distinct (map fst m)"
  by (auto simp: wf_groups_def list_all_iff dest: map_of_SomeD)

lemma wf_groups_removed: "wf_groups gs \<Longrightarrow> wf_groups (fst (remove_from_all u notify gs))"
  by (auto simp: wf_groups_def remove_from_all_fst comp_def list_all_iff distinct_delete)

lemma distinct_set_offline:
  "distinct (map fst au) \<Longrightarrow> distinct (map fst (set_offline u now au))"
  by (simp add: map_fst_set_offline)

lemma sockets_lookup:
  "list_all (\<lambda>(u, sockets). distinct sockets) us \<Longrightarrow> map_of us u = Some sockets
     \<Longrightarrow> distinct sockets"
  by (auto simp: list_all_iff dest: map_of_SomeD)

lemma wf_state_connection: "wf_state s \<Longrightarrow> wf_state (fst (connection sock n1 n2 s))"
  by (auto simp: wf_state_def connection_def Let_def has_def distinct_update update_conv'
      Set_add_def intro!: list_all_update dest: sockets_lookup split: option.splits)

lemma wf_state_joinCommunity: "wf_state s \<Longrightarrow> wf_state (fst (joinCommunity sock c now s))"
  by (auto simp: wf_state_def joinCommunity_def Let_def has_def distinct_update update_conv'
      intro!: wf_groups_update dest: wf_groups_lookup split: option.splits)

lemma wf_state_disconnect:
  assumes "wf_state s"
  shows "wf_state (fst (disconnect sock n1 n2 s))"
proof (cases "map_of (userSockets s) (user_id (data_user sock))")
  case None
  then show ?thesis using assms by (simp add: disconnect_closed_form)
next
  case (Some sockets)
  from assms have "distinct sockets"
    using Some by (auto simp: wf_state_def dest: sockets_lookup)
  then have "distinct (Set_delete (socket_id sock) sockets)"
    by (simp add: Set_delete_def distinct_removeAll)
  then show ?thesis
    using assms Some
    by (simp add: wf_state_def disconnect_closed_form distinct_update distinct_set_offline
        wf_groups_removed list_all_update)
qed

lemma wf_state_step: "wf_state s \<Longrightarrow> wf_state (fst (step jv x s))"
proof (cases x)
  case (OpConnect sid token n1 n2)
  assume "wf_state s"
  then show ?thesis using OpConnect by (simp add: wf_state_connection split: sum.splits)
next
  case (OpJoinCommunity sock c now)
  assume "wf_state s"
  then show ?thesis using OpJoinCommunity by (simp add: wf_state_joinCommunity)
next
  case (OpNewPost sock post outcome)
  assume "wf_state s"
  then show ?thesis using OpNewPost by (simp add: newPost_def)
next
  case (OpDirectMessage sock data outcome)
  assume "wf_state s"
  then show ?thesis using OpDirectMessage by (simp only: step_direct_state)
next
  case (OpOther sock name payload)
  assume "wf_state s"
  then show ?thesis using OpOther by simp
next
  case (OpDisconnect sock n1 n2)
  assume "wf_state s"
  then show ?thesis using OpDisconnect by (simp add: wf_state_disconnect)
qed

lemma wf_state_run: "wf_state s \<Longrightarrow> wf_state (run jv ops s)"
  by (induction ops arbitrary: s) (simp_all add: wf_state_step)

lemma wf_state_reachable: "wf_state (run jv ops init_state)"
  by (rule wf_state_run) (simp add: wf_state_def wf_groups_def init_state_def)

lemma last_disconnect_trace:
  assumes last: "map_of (userSockets s) (user_id (data_user sock)) = Some [socket_id sock]"
    and dc: "distinct (map fst (communityMembers s))"
    and dh: "distinct (map fst (channelMembers s))"
  shows "\<not> is_member (communityMembers (fst (disconnect sock n1 n2 s))) g (user_id (data_user sock))
       \<and> \<not> is_member (channelMembers (fst (disconnect sock n1 n2 s))) g (user_id (data_user sock))
       \<and> count_list (snd (disconnect sock n1 n2 s))
           (Emit (ToRoom (''community:'' @ g)) (CommunityMemberLeft g (user_id (data_user sock))))
         = (if is_member (communityMembers s) g (user_id (data_user sock)) then 1 else 0)
       \<and> count_list (snd (disconnect sock n1 n2 s))
           (Emit (ToRoom (''channel:'' @ g)) (ChannelMemberLeft g (user_id (data_user sock))))
         = (if is_member (channelMembers s) g (user_id (data_user sock)) then 1 else 0)
       \<and> ((t, CommunityMemberLeft g v) \<in> set (emits (snd (disconnect sock n1 n2 s)))
            \<longrightarrow> t = ToRoom (''community:'' @ g) \<and> v = user_id (data_user sock)
                \<and> is_member (communityMembers s) g (user_id (data_user sock)))
       \<and> ((t, ChannelMemberLeft g v) \<in> set (emits (snd (disconnect sock n1 n2 s)))
            \<longrightarrow> t = ToRoom (''channel:'' @ g) \<and> v = user_id (data_user sock)
                \<and> is_member (channelMembers s) g (user_id (data_user sock)))"
proof -
  let ?u = "user_id (data_user sock)"
  let ?L1 = "snd (remove_from_all ?u (community_left ?u) (communityMembers s))"
  let ?L2 = "snd (remove_from_all ?u (channel_left ?u) (channelMembers s))"
  let ?L3 = "snd (remove_from_all ?u (typing_stopped ?u) (typingUsers s))"
  have st: "communityMembers (fst (disconnect sock n1 n2 s))
              = fst (remove_from_all ?u (community_left ?u) (communityMembers s))"
           "channelMembers (fst (disconnect sock n1 n2 s))
              = fst (remove_from_all ?u (channel_left ?u) (channelMembers s))"
    and tr: "snd (disconnect sock n1 n2 s)
              = Emit ToAll (UserStatus ?u Offline n2) # ?L1 @ ?L2 @ ?L3"
    using last by (simp_all add: disconnect_closed_form Set_delete_def)
  have c1: "count_list ?L1 (community_left ?u g) = (if is_member (communityMembers s) g ?u then 1 else 0)"
    by (rule count_list_removed [OF inj_community_left dc])
  have c2: "count_list ?L2 (channel_left ?u g) = (if is_member (channelMembers s) g ?u then 1 else 0)"
    by (rule count_list_removed [OF inj_channel_left dh])
  have z1: "count_list ?L2 (community_left ?u g) = 0" "count_list ?L3 (community_left ?u g) = 0"
    by (rule count_list_removed_other, auto simp: community_left_def channel_left_def typing_stopped_def)+
  have z2: "count_list ?L1 (channel_left ?u g) = 0" "count_list ?L3 (channel_left ?u g) = 0"
    by (rule count_list_removed_other, auto simp: community_left_def channel_left_def typing_stopped_def)+
  have m1: "t = ToRoom (''community:'' @ g) \<and> v = ?u \<and> is_member (communityMembers s) g ?u"
    if "(t, CommunityMemberLeft g v) \<in> set (emits (snd (disconnect sock n1 n2 s)))"
  proof -
    from that have "Emit t (CommunityMemberLeft g v) \<in> set ?L1 \<union> set ?L2 \<union> set ?L3"
      by (auto simp: tr in_emits)
    moreover have "Emit t (CommunityMemberLeft g v) \<notin> set ?L2"
      by (auto dest: removed_in_range simp: channel_left_def)
    moreover have "Emit t (CommunityMemberLeft g v) \<notin> set ?L3"
      by (auto dest: removed_in_range simp: typing_stopped_def)
    ultimately have "Emit t (CommunityMemberLeft g v) \<in> set ?L1"
      by simp
    then obtain g0 where "Emit t (CommunityMemberLeft g v) = community_left ?u g0"
      and "is_member (communityMembers s) g0 ?u"
      using in_removed [OF dc] by blast
    then show ?thesis
      by (simp add: community_left_def)
  qed
  have m2: "t = ToRoom (''channel:'' @ g) \<and> v = ?u \<and> is_member (channelMembers s) g ?u"
    if "(t, ChannelMemberLeft g v) \<in> set (emits (snd (disconnect sock n1 n2 s)))"
  proof -
    from that have "Emit t (ChannelMemberLeft g v) \<in> set ?L1 \<union> set ?L2 \<union> set ?L3"
      by (auto simp: tr in_emits)
    moreover have "Emit t (ChannelMemberLeft g v) \<notin> set ?L1"
      by (auto dest: removed_in_range simp: community_left_def)
    moreover have "Emit t (ChannelMemberLeft g v) \<notin> set ?L3"
      by (auto dest: removed_in_range simp: typing_stopped_def)
    ultimately have "Emit t (ChannelMemberLeft g v) \<in> set ?L2"
      by simp
    then obtain g0 where "Emit t (ChannelMemberLeft g v) = channel_left ?u g0"
      and "is_member (channelMembers s) g0 ?u"
      using in_removed [OF dh] by blast
    then show ?thesis
      by (simp add: channel_left_def)
  qed
  have p1: "\<not> is_member (communityMembers (fst (disconnect sock n1 n2 s))) g ?u"
    and p2: "\<not> is_member (channelMembers (fst (disconnect sock n1 n2 s))) g ?u"
    by (simp_all add: st is_member_removed)
  have p3: "count_list (snd (disconnect sock n1 n2 s)) (community_left ?u g)
              = (if is_member (communityMembers s) g ?u then 1 else 0)"
    by (simp add: tr c1 z1) (simp add: community_left_def)
  have p4: "count_list (snd (disconnect sock n1 n2 s)) (channel_left ?u g)
              = (if is_member (channelMembers s) g ?u then 1 else 0)"
    by (simp add: tr c2 z2) (simp add: channel_left_def)
  show ?thesis
    using p1 p2 p3 [unfolded community_left_def] p4 [unfolded channel_left_def] m1 m2
    by blast
qed

lemma alice_left_one_device_eq:
  "alice_left_one_device =
     \<lparr>hub = \<lparr>activeUsers =
            [(JStr ''alice'', \<lparr>p_id = JStr ''alice'', p_name = JStr ''Alice'', p_image = JUndefined,
                p_status = Online, p_lastActive = 3, p_socketId = ''a2''\<rparr>),
             (JStr ''bob'', \<lparr>p_id = JStr ''bob'', p_name = JStr ''Bob'', p_image = JUndefined,
                p_status = Online, p_lastActive = 6, p_socketId = ''b1''\<rparr>)],
          userSockets = [(JStr ''alice'', [''a2'']), (JStr ''bob'', [''b1''])],
          communityMembers =
            [(''c1'', [(JStr ''alice'', \<lparr>m_id = JStr ''alice'', m_name = JStr ''Alice'',
                          m_image = JUndefined, m_status = Online, m_lastActive = 5\<rparr>),
                       (JStr ''bob'', \<lparr>m_id = JStr ''bob'', m_name = JStr ''Bob'',
                          m_image = JUndefined, m_status = Online, m_lastActive = 8\<rparr>)])],
          channelMembers = [], typingUsers = []\<rparr>,
      open_sockets = [a2, b1],
      used_ids = [''b1'', ''a2'', ''a1''],
      socket_rooms = [(''a2'', [''a2'', ''user:alice'']),
               (''b1'', [''b1'', ''user:bob'', ''community:c1''])]\<rparr>"
  by code_simp

lemma inbox_Nil: "inbox rs [] h = []"
  by (simp add: inbox_def)

lemma inbox_Emit:
  "inbox rs (Emit t e # effs) h = (if addressed rs t h then e # inbox rs effs h else inbox rs effs h)"
  by (simp add: inbox_def)

lemma inbox_append: "inbox rs (xs @ ys) h = inbox rs xs h @ inbox rs ys h"
  by (simp add: inbox_def emits_append)

lemma count_inbox_removed:
  assumes notify: "\<And>g. notify g = Emit (ToRoom (room g)) (ev g)"
    and "inj ev" and "distinct (map fst gs)"
  shows "count_list (inbox rs (snd (remove_from_all u notify gs)) h) (ev g)
           = (if is_member gs g u \<and> room g \<in> set (rs h) then 1 else 0)"
  using assms(3)
proof (induction gs)
  case Nil
  then show ?case by (simp add: is_member_def inbox_Nil)
next
  case (Cons p gs)
  obtain g' m where p: "p = (g', m)" by (cases p)
  from Cons.prems p have fresh: "g' \<notin> fst ` set gs" and d: "distinct (map fst gs)"
    by auto
  have none: "\<not> is_member gs g' u"
    using fresh by (force simp: is_member_iff [OF d])
  have eq: "ev g' = ev g \<longleftrightarrow> g' = g"
    using assms(2) by (auto dest: injD)
  have here: "is_member ((g', m) # gs) g u \<longleftrightarrow> (if g = g' then has m u else is_member gs g u)"
    by (simp add: is_member_def)
  show ?case
    using Cons.IH [OF d] none
    by (auto simp: here p case_prod_unfold Let_def eq notify inbox_Emit)
qed

lemma count_inbox_removed_other:
  assumes "\<And>g. \<exists>t e'. notify g = Emit t e' \<and> e' \<noteq> e"
  shows "count_list (inbox rs (snd (remove_from_all u notify gs)) h) e = 0"
proof (induction gs)
  case Nil
  then show ?case by (simp add: inbox_Nil)
next
  case (Cons p gs)
  obtain g' m where p: "p = (g', m)" by (cases p)
  obtain t e' where n: "notify g' = Emit t e'" "e' \<noteq> e"
    using assms by blast
  show ?case
    using Cons.IH n by (simp add: p case_prod_unfold Let_def inbox_Emit)
qed

lemma count_inbox_last_disconnect:
  assumes last: "map_of (userSockets s) (user_id (data_user sock)) = Some [socket_id sock]"
    and dc: "distinct (map fst (communityMembers s))"
    and dh: "distinct (map fst (channelMembers s))"
  shows "count_list (inbox rs (snd (disconnect sock n1 n2 s)) h)
           (CommunityMemberLeft g (user_id (data_user sock)))
         = (if is_member (communityMembers s) g (user_id (data_user sock))
               \<and> (''community:'' @ g) \<in> set (rs h) then 1 else 0)"
    and "count_list (inbox rs (snd (disconnect sock n1 n2 s)) h)
           (ChannelMemberLeft g (user_id (data_user sock)))
         = (if is_member (channelMembers s) g (user_id (data_user sock))
               \<and> (''channel:'' @ g) \<in> set (rs h) then 1 else 0)"
proof -
  let ?u = "user_id (data_user sock)"
  let ?L1 = "snd (remove_from_all ?u (community_left ?u) (communityMembers s))"
  let ?L2 = "snd (remove_from_all ?u (channel_left ?u) (channelMembers s))"
  let ?L3 = "snd (remove_from_all ?u (typing_stopped ?u) (typingUsers s))"
  have tr: "snd (disconnect sock n1 n2 s)
              = Emit ToAll (UserStatus ?u Offline n2) # ?L1 @ ?L2 @ ?L3"
    using last by (simp add: disconnect_closed_form Set_delete_def)
  have a1: "count_list (inbox rs ?L1 h) (CommunityMemberLeft g ?u)
              = (if is_member (communityMembers s) g ?u \<and> (''community:'' @ g) \<in> set (rs h)
                 then 1 else 0)"
    by (rule count_inbox_removed [where room = "\<lambda>g. ''community:'' @ g"
          and ev = "\<lambda>g. CommunityMemberLeft g ?u", OF _ _ dc])
       (simp_all add: community_left_def inj_def)
  have a2: "count_list (inbox rs ?L2 h) (CommunityMemberLeft g ?u) = 0"
    by (rule count_inbox_removed_other) (simp add: channel_left_def)
  have a3: "count_list (inbox rs ?L3 h) (CommunityMemberLeft g ?u) = 0"
    by (rule count_inbox_removed_other) (simp add: typing_stopped_def)
  have b1: "count_list (inbox rs ?L1 h) (ChannelMemberLeft g ?u) = 0"
    by (rule count_inbox_removed_other) (simp add: community_left_def)
  have b2: "count_list (inbox rs ?L2 h) (ChannelMemberLeft g ?u)
              = (if is_member (channelMembers s) g ?u \<and> (''channel:'' @ g) \<in> set (rs h)
                 then 1 else 0)"
    by (rule count_inbox_removed [where room = "\<lambda>g. ''channel:'' @ g"
          and ev = "\<lambda>g. ChannelMemberLeft g ?u", OF _ _ dh])
       (simp_all add: channel_left_def inj_def)
  have b3: "count_list (inbox rs ?L3 h) (ChannelMemberLeft g ?u) = 0"
    by (rule count_inbox_removed_other) (simp add: typing_stopped_def)
  show "count_list (inbox rs (snd (disconnect sock n1 n2 s)) h) (CommunityMemberLeft g ?u)
         = (if is_member (communityMembers s) g ?u \<and> (''community:'' @ g) \<in> set (rs h)
            then 1 else 0)"
    by (simp add: tr inbox_Emit inbox_append a1 a2 a3)
  show "count_list (inbox rs (snd (disconnect sock n1 n2 s)) h) (ChannelMemberLeft g ?u)
         = (if is_member (channelMembers s) g ?u \<and> (''channel:'' @ g) \<in> set (rs h)
            then 1 else 0)"
    by (simp add: tr inbox_Emit inbox_append b1 b2 b3)
qed


lemma run_append: "run jv (xs @ ys) s = run jv ys (run jv xs s)"
  by (induction xs arbitrary: s) simp_all

lemma hub_serve:
  "hub (fst (serve jv x sv)) = hub sv \<or> hub (fst (serve jv x sv)) = fst (step jv x (hub sv))"
  by (cases x) (auto simp: Let_def split: sum.splits)

lemma hub_serve_all: "\<exists>ops'. hub (serve_all jv ops sv) = run jv ops' (hub sv)"
proof (induction ops arbitrary: sv)
  case Nil
  have "hub sv = run jv [] (hub sv)" by simp
  then show ?case by (auto simp del: run.simps)
next
  case (Cons x ops)
  obtain ops' where o: "hub (serve_all jv ops (fst (serve jv x sv))) = run jv ops' (hub (fst (serve jv x sv)))"
    using Cons.IH by blast
  from hub_serve [of jv x sv] show ?case
  proof
    assume "hub (fst (serve jv x sv)) = hub sv"
    with o have "hub (serve_all jv (x # ops) sv) = run jv ops' (hub sv)" by simp
    then show ?thesis by blast
  next
    assume "hub (fst (serve jv x sv)) = fst (step jv x (hub sv))"
    with o have "hub (serve_all jv (x # ops) sv) = run jv (x # ops') (hub sv)" by simp
    then show ?thesis by blast
  qed
qed

lemma server_inv_serve: "server_inv sv \<Longrightarrow> server_inv (fst (serve jv x sv))"
  by (cases x)
     (auto simp: server_inv_def list_all_iff Let_def removeAll_filter_not_eq
       distinct_map_filter split: sum.splits)


lemma server_inv_init: "server_inv init_server"
  by (simp add: server_inv_def init_server_def)

lemma handles_joinCommunity: "handles (fst (joinCommunity sock c now s)) u = handles s u"
  by (simp add: handles_def joinCommunity_registry)





lemma registered_serve:
  assumes "server_inv sv" and "registered sv"
  shows "registered (fst (serve jv x sv))"
proof (cases x)
  case (OpConnect sid token n1 n2)
  then show ?thesis using assms(2)
    by (auto simp: registered_def list_all_iff Let_def handles_connection Set_add_def
        split: sum.splits)
next
  case (OpJoinCommunity sock' c now)
  then show ?thesis using assms(2)
    by (auto simp: registered_def list_all_iff Let_def handles_joinCommunity)
next
  case (OpNewPost sock' post outcome)
  then show ?thesis using assms(2)
    by (auto simp: registered_def list_all_iff Let_def newPost_def)
next
  case (OpDirectMessage sock' data outcome)
  then show ?thesis using assms(2)
    by (simp add: registered_def Let_def step_direct_state del: step.simps)
next
  case (OpOther sock' name payload)
  then show ?thesis using assms(2) by simp
next
  case (OpDisconnect sock' n1 n2)
  have same: "x = sock'"
    if "x \<in> set (open_sockets sv)" "sock' \<in> set (open_sockets sv)"
      "socket_id x = socket_id sock'" for x
    using assms(1) that
    by (auto simp: server_inv_def dest: inj_onD [OF distinct_map [THEN iffD1, THEN conjunct2]])
  show ?thesis
  proof (cases "sock' \<in> set (open_sockets sv)")
    case False
    then show ?thesis using assms(2) OpDisconnect by simp
  next
    case True
    have "socket_id x \<in> set (handles (fst (disconnect sock' n1 n2 (hub sv))) (user_id (data_user x)))"
      if x: "x \<in> set (open_sockets sv)" "x \<noteq> sock'" for x
    proof -
      have "socket_id x \<noteq> socket_id sock'"
        using same [OF x(1) True] x(2) by blast
      moreover have "socket_id x \<in> set (handles (hub sv) (user_id (data_user x)))"
        using assms(2) x(1) by (simp add: registered_def list_all_iff)
      ultimately show ?thesis
        by (auto simp: handles_disconnect Set_delete_def)
    qed
    then show ?thesis using True OpDisconnect
      by (simp add: registered_def list_all_iff Let_def)
  qed
qed

lemma registered_serve_all:
  "server_inv sv \<Longrightarrow> registered sv \<Longrightarrow> registered (serve_all jv ops sv)"
  by (induction ops arbitrary: sv) (simp_all add: registered_serve server_inv_serve)

lemma registered_init: "registered init_server"
  by (simp add: registered_def init_server_def)

lemma open_socket_registered:
  "x \<in> set (open_sockets (serve_all jv ops init_server))
     \<Longrightarrow> socket_id x \<in> set (handles (hub (serve_all jv ops init_server)) (user_id (data_user x)))"
  using registered_serve_all [OF server_inv_init registered_init, of jv ops]
  by (simp add: registered_def list_all_iff)

lemma removed_handle_dropped:
  assumes "socket_id sock \<notin> set (handles (hub (serve_all jv ops init_server)) (user_id (data_user sock)))"
  shows "serve jv (OpDisconnect sock n1 n2) (serve_all jv ops init_server)
           = (serve_all jv ops init_server, [])"
proof -
  from assms have "sock \<notin> set (open_sockets (serve_all jv ops init_server))"
    using open_socket_registered by blast
  then show ?thesis by simp
qed

lemma members_of_removed:
  "map_of (members_of (fst (remove_from_all u notify gs)) g) w
     = (if w = u then None else map_of (members_of gs g) w)"
  by (cases "map_of gs g")
     (simp_all add: members_of_def remove_from_all_fst map_of_pruned delete_conv')

lemma others_stay_last_disconnect:
  assumes "map_of (userSockets s) (user_id (data_user sock)) = Some [socket_id sock]"
    and "w \<noteq> user_id (data_user sock)"
  shows "map_of (members_of (communityMembers (fst (disconnect sock n1 n2 s))) g) w
           = map_of (members_of (communityMembers s) g) w"
    and "map_of (members_of (channelMembers (fst (disconnect sock n1 n2 s))) g) w
           = map_of (members_of (channelMembers s) g) w"
  using assms by (simp_all add: disconnect_closed_form Set_delete_def members_of_removed)

section \<open>Posts are broadcast before they are saved\<close>

text \<open>
  C1, as the code has it: whatever the persistence call does, \<^verbatim>\<open>newPost\<close> leaves the state
  alone and broadcasts the post it received to all connections, once, before the request to
  the API is made; every socket gets the post.
\<close>

theorem newPost_broadcasts_before_persistence:
  "fst (newPost sock post outcome s) = s
   \<and> snd (newPost sock post outcome s)
       = [Emit ToAll (NewPost post), Fetch ''/api/posts'' (handshake_token sock) (PostBody post)]
   \<and> inbox rooms (snd (newPost sock post outcome s)) h = [NewPost post]"
  by (simp add: newPost_def inbox_def)

text \<open>
  C1 as stated fails: with the request to the API rejected, the post still reaches the
  second device of bob.
\<close>

theorem newPost_failed_persistence_counterexample:
  "''b2'' \<in> set (handles two_devices_each (JStr ''bob''))
   \<and> inbox own_rooms (snd (newPost a1 ''post'' FetchRejected two_devices_each)) ''b2''
       = [NewPost ''post'']"
  by (simp add: fixtures connection_def Let_def handles_def has_def Set_add_def
      newPost_def inbox_def)

section \<open>Presence follows the handles\<close>

text \<open>
  C2: at every point \<open>n\<close> of every sequence of operations from the start of the process
  (connections, refused or not, of any users, events and disconnections of any sockets), the
  presence record of a user says online exactly when the set of handles of the user is not
  empty.
\<close>

theorem online_iff_handle_open:
  "online (run jwt_verify (take n ops) init_state) u
     \<longleftrightarrow> handles (run jwt_verify (take n ops) init_state) u \<noteq> []"
  using presence_inv_run [OF presence_inv_init, of jwt_verify "take n ops"]
  by (simp add: presence_inv_def)

section \<open>Disconnecting the last handle\<close>

text \<open>
  C3, as the code has it: a user whose only handle is this socket disconnects, in a state
  whose community and channel maps have no key twice. Afterwards the user is a member of no
  community and no channel. For every group \<open>g\<close> the trace has the member-left event of the
  user for \<open>g\<close>, addressed to the room of \<open>g\<close>, once if the user was a member of \<open>g\<close> and
  not at all otherwise; and every member-left event in the trace is of this user, goes to the
  room of its group, and is for a group the user was a member of. Every other user \<open>w\<close> has
  in every group the entry it had. The event reaches the
  sockets that are in the room of the group, each once, and no other socket: a socket \<open>h\<close>
  with the rooms \<open>rs h\<close> gets it once if the user was a member and the room is among
  \<open>rs h\<close>, and not at all otherwise.
\<close>

theorem last_disconnect_leaves_groups:
  assumes last: "map_of (userSockets s) (user_id (data_user sock)) = Some [socket_id sock]"
    and dc: "distinct (map fst (communityMembers s))"
    and dh: "distinct (map fst (channelMembers s))"
  shows "\<not> is_member (communityMembers (fst (disconnect sock n1 n2 s))) g (user_id (data_user sock))
       \<and> \<not> is_member (channelMembers (fst (disconnect sock n1 n2 s))) g (user_id (data_user sock))
       \<and> count_list (snd (disconnect sock n1 n2 s))
           (Emit (ToRoom (''community:'' @ g)) (CommunityMemberLeft g (user_id (data_user sock))))
         = (if is_member (communityMembers s) g (user_id (data_user sock)) then 1 else 0)
       \<and> count_list (snd (disconnect sock n1 n2 s))
           (Emit (ToRoom (''channel:'' @ g)) (ChannelMemberLeft g (user_id (data_user sock))))
         = (if is_member (channelMembers s) g (user_id (data_user sock)) then 1 else 0)
       \<and> ((t, CommunityMemberLeft g v) \<in> set (emits (snd (disconnect sock n1 n2 s)))
            \<longrightarrow> t = ToRoom (''community:'' @ g) \<and> v = user_id (data_user sock)
                \<and> is_member (communityMembers s) g (user_id (data_user sock)))
       \<and> ((t, ChannelMemberLeft g v) \<in> set (emits (snd (disconnect sock n1 n2 s)))
            \<longrightarrow> t = ToRoom (''channel:'' @ g) \<and> v = user_id (data_user sock)
                \<and> is_member (channelMembers s) g (user_id (data_user sock)))
       \<and> count_list (inbox rs (snd (disconnect sock n1 n2 s)) h)
           (CommunityMemberLeft g (user_id (data_user sock)))
         = (if is_member (communityMembers s) g (user_id (data_user sock))
               \<and> (''community:'' @ g) \<in> set (rs h) then 1 else 0)
       \<and> count_list (inbox rs (snd (disconnect sock n1 n2 s)) h)
           (ChannelMemberLeft g (user_id (data_user sock)))
         = (if is_member (channelMembers s) g (user_id (data_user sock))
               \<and> (''channel:'' @ g) \<in> set (rs h) then 1 else 0)
       \<and> (w \<noteq> user_id (data_user sock)
            \<longrightarrow> map_of (members_of (communityMembers (fst (disconnect sock n1 n2 s))) g) w
                  = map_of (members_of (communityMembers s) g) w
                \<and> map_of (members_of (channelMembers (fst (disconnect sock n1 n2 s))) g) w
                  = map_of (members_of (channelMembers s) g) w)"
proof -
  note trace = last_disconnect_trace [OF last dc dh, of n1 n2 g t v]
  note c = count_inbox_last_disconnect(1) [OF last dc dh, of rs n1 n2 h g]
  note d = count_inbox_last_disconnect(2) [OF last dc dh, of rs n1 n2 h g]
  note stay = others_stay_last_disconnect [OF last, of w n1 n2 g]
  show ?thesis
    using trace c d stay by blast
qed

theorem last_disconnect_leaves_groups_witness:
  "map_of (userSockets in_groups) (user_id (data_user a1)) = Some [socket_id a1]
   \<and> distinct (map fst (communityMembers in_groups))
   \<and> distinct (map fst (channelMembers in_groups))
   \<and> is_member (communityMembers in_groups) ''c1'' (JStr ''alice'')
   \<and> \<not> is_member (communityMembers (fst (disconnect a1 10 11 in_groups))) ''c1'' (JStr ''alice'')
   \<and> count_list (snd (disconnect a1 10 11 in_groups))
        (Emit (ToRoom ''community:c1'') (CommunityMemberLeft ''c1'' (JStr ''alice''))) = 1
   \<and> count_list
        (inbox (\<lambda>h. if h = ''b1'' then [''b1'', ''user:bob'', ''community:c1''] else [h])
           (snd (disconnect a1 10 11 in_groups)) ''b1'')
        (CommunityMemberLeft ''c1'' (JStr ''alice'')) = 1"
proof -
  have h1: "map_of (userSockets in_groups) (user_id (data_user a1)) = Some [socket_id a1]"
    by (simp add: in_groups_def a1_def alice_def)
  have h2: "distinct (map fst (communityMembers in_groups))"
    by (simp add: in_groups_def)
  have h3: "distinct (map fst (channelMembers in_groups))"
    by (simp add: in_groups_def)
  have m: "is_member (communityMembers in_groups) ''c1'' (JStr ''alice'')"
    by (simp add: in_groups_def is_member_def has_def)
  show ?thesis
    using last_disconnect_leaves_groups [OF h1 h2 h3, of 10 11 "''c1''" ToAll JUndefined
        "\<lambda>h. if h = ''b1'' then [''b1'', ''user:bob'', ''community:c1''] else [h]" "''b1''"
        "JStr ''bob''"]
      h1 h2 h3 m
    by (simp add: a1_def alice_def)
qed

text \<open>
  C3 as stated fails: after the first device of alice, from which she joined, has closed, she
  is still a member of the community and has her second device open. Bob, with his only
  handle, disconnects: the member-left event of bob is emitted to the room of the community,
  and the open device of alice, a remaining member, gets the offline event only.
\<close>

theorem member_left_not_received_counterexample:
  "map_of (userSockets (hub alice_left_one_device)) (user_id (data_user b1)) = Some [socket_id b1]
   \<and> distinct (map fst (communityMembers (hub alice_left_one_device)))
   \<and> distinct (map fst (channelMembers (hub alice_left_one_device)))
   \<and> is_member (communityMembers (hub alice_left_one_device)) ''c1'' (JStr ''bob'')
   \<and> b1 \<in> set (open_sockets alice_left_one_device)
   \<and> a2 \<in> set (open_sockets (fst (serve demo_verify (OpDisconnect b1 15 16) alice_left_one_device)))
   \<and> handles (hub (fst (serve demo_verify (OpDisconnect b1 15 16) alice_left_one_device)))
        (JStr ''alice'') = [''a2'']
   \<and> is_member
        (communityMembers (hub (fst (serve demo_verify (OpDisconnect b1 15 16) alice_left_one_device))))
        ''c1'' (JStr ''alice'')
   \<and> snd (serve demo_verify (OpDisconnect b1 15 16) alice_left_one_device)
       = [Emit ToAll (UserStatus (JStr ''bob'') Offline 16),
          Emit (ToRoom ''community:c1'') (CommunityMemberLeft ''c1'' (JStr ''bob''))]
   \<and> inbox (rooms_of (fst (serve demo_verify (OpDisconnect b1 15 16) alice_left_one_device)))
        (snd (serve demo_verify (OpDisconnect b1 15 16) alice_left_one_device)) ''a2''
       = [UserStatus (JStr ''bob'') Offline 16]"
  unfolding alice_left_one_device_eq by code_simp

section \<open>Disconnecting a handle again\<close>



section \<open>Connecting\<close>

text \<open>
  C5, as the code has it: every connection that passed the middleware, the first of its user
  or a later one, writes the presence record of the user anew (online, last active at the
  time of the call, the id of this socket), has the socket among the handles of the user, and
  emits one presence event, online, to all connections.
\<close>

theorem connection_always_announces:
  "map_of (activeUsers (fst (connection sock now1 now2 s))) (user_id (data_user sock))
     = Some \<lparr>p_id = user_id (data_user sock), p_name = user_name (data_user sock),
             p_image = user_image (data_user sock), p_status = Online,
             p_lastActive = now1, p_socketId = socket_id sock\<rparr>
   \<and> online (fst (connection sock now1 now2 s)) (user_id (data_user sock))
   \<and> socket_id sock \<in> set (handles (fst (connection sock now1 now2 s)) (user_id (data_user sock)))
   \<and> emits (snd (connection sock now1 now2 s))
       = [(ToAll, UserStatus (user_id (data_user sock)) Online now2)]"
  by (simp add: connection_def Let_def online_def handles_def has_def Set_add_def
      update_conv' split: option.splits)

text \<open>
  C5 as stated fails: alice is online with one handle, and the connection of her second
  device emits the online event again.
\<close>

theorem second_connection_counterexample:
  "handles (fst (connection a1 1 2 init_state)) (JStr ''alice'') = [''a1'']
   \<and> online (fst (connection a1 1 2 init_state)) (JStr ''alice'')
   \<and> emits (snd (connection a2 3 4 (fst (connection a1 1 2 init_state))))
       = [(ToAll, UserStatus (JStr ''alice'') Online 4)]"
  by (simp add: fixtures connection_def Let_def online_def handles_def has_def Set_add_def)

section \<open>A direct message that is saved\<close>

text \<open>
  C6, as the code has it: when the message is saved and the recipient has the two handles
  \<open>h1\<close> and \<open>h2\<close>, the handler returns, the state is as before, and the emits are the saved
  message to the room of \<open>h1\<close>, the saved message to the room of \<open>h2\<close>, and one confirmation
  of the sending socket to itself. With every socket alone in the room of its own id, each of
  the two handles gets the message exactly once, and the sending socket, and no other socket,
  gets the confirmation.
\<close>

theorem direct_message_success:
  assumes "message d = Some msg"
    and "saved outcome = Some m"
    and "map_of (userSockets s) (recipientId d) = Some [h1, h2]"
    and "h1 \<noteq> h2"
    and "h1 \<in> set (rooms h1)" and "h2 \<in> set (rooms h2)"
    and "h1 \<notin> set (rooms h2)" and "h2 \<notin> set (rooms h1)"
  shows "\<exists>effs. direct_message sock (Some d) outcome s = Inr (s, effs)
           \<and> emits effs = [(ToRoom h1, DirectMessageNew m), (ToRoom h2, DirectMessageNew m),
                            (ToSelf (socket_id sock), DirectMessageSent m)]
           \<and> count_list (inbox rooms effs h1) (DirectMessageNew m) = 1
           \<and> count_list (inbox rooms effs h2) (DirectMessageNew m) = 1
           \<and> (\<forall>h. count_list (inbox rooms effs h) (DirectMessageSent m)
                  = (if h = socket_id sock then 1 else 0))"
  using assms by (simp add: direct_message_def inbox_def has_def)

theorem direct_message_success_witness:
  "message hello = Some \<lparr>chatId = JStr ''c1'', content = JStr ''hi'', mediaUrl = JUndefined, mediaType = JUndefined\<rparr>
   \<and> saved (FetchResponse True (BodyObject (Some ''stored''))) = Some (Some ''stored'')
   \<and> map_of (userSockets two_devices_each) (recipientId hello) = Some [''b1'', ''b2'']
   \<and> (\<exists>effs. direct_message a1 (Some hello) (FetchResponse True (BodyObject (Some ''stored''))) two_devices_each
                = Inr (two_devices_each, effs)
           \<and> emits effs = [(ToRoom ''b1'', DirectMessageNew (Some ''stored'')),
                            (ToRoom ''b2'', DirectMessageNew (Some ''stored'')),
                            (ToSelf ''a1'', DirectMessageSent (Some ''stored''))]
           \<and> count_list (inbox own_rooms effs ''b1'') (DirectMessageNew (Some ''stored'')) = 1
           \<and> count_list (inbox own_rooms effs ''b2'') (DirectMessageNew (Some ''stored'')) = 1
           \<and> (\<forall>h. count_list (inbox own_rooms effs h) (DirectMessageSent (Some ''stored''))
                  = (if h = ''a1'' then 1 else 0)))"
proof -
  have us: "map_of (userSockets two_devices_each) (recipientId hello) = Some [''b1'', ''b2'']"
    by (simp add: fixtures connection_def Let_def has_def Set_add_def)
  have m: "message hello = Some \<lparr>chatId = JStr ''c1'', content = JStr ''hi'', mediaUrl = JUndefined, mediaType = JUndefined\<rparr>"
    by (simp add: hello_def)
  have sv: "saved (FetchResponse True (BodyObject (Some ''stored''))) = Some (Some ''stored'')"
    by simp
  show ?thesis
    using direct_message_success [OF m sv us, of own_rooms a1] us m
    by (simp add: own_rooms_def a1_def)
qed

text \<open>
  C6 as stated fails: alice sends from her first device; her second device is one of her
  handles and is in the room of the user, and it gets nothing.
\<close>

theorem direct_message_confirmation_counterexample:
  "''a2'' \<in> set (handles two_devices_each (JStr ''alice''))
   \<and> ''user:alice'' \<in> set (own_rooms ''a2'')
   \<and> direct_message a1 (Some hello) (FetchResponse True (BodyObject (Some ''stored''))) two_devices_each
       = Inr (two_devices_each,
              [Fetch ''/api/chat/messages'' (JStr ''tokA'')
                 (MessageBody \<lparr>chatId = JStr ''c1'', content = JStr ''hi'', mediaUrl = JUndefined,
                               mediaType = JUndefined\<rparr>),
               Emit (ToRoom ''b1'') (DirectMessageNew (Some ''stored'')),
               Emit (ToRoom ''b2'') (DirectMessageNew (Some ''stored'')),
               Emit (ToSelf ''a1'') (DirectMessageSent (Some ''stored''))])
   \<and> inbox own_rooms
       [Fetch ''/api/chat/messages'' (JStr ''tokA'')
                 (MessageBody \<lparr>chatId = JStr ''c1'', content = JStr ''hi'', mediaUrl = JUndefined,
                               mediaType = JUndefined\<rparr>),
               Emit (ToRoom ''b1'') (DirectMessageNew (Some ''stored'')),
               Emit (ToRoom ''b2'') (DirectMessageNew (Some ''stored'')),
               Emit (ToSelf ''a1'') (DirectMessageSent (Some ''stored''))] ''a2'' = []"
  by (simp add: fixtures connection_def Let_def handles_def has_def Set_add_def
      direct_message_def inbox_def)

section \<open>A direct message that is not saved\<close>

text \<open>
  C7, as the code has it: when the message is not saved (the request is rejected, the
  response is not ok, or its body cannot be read), the handler returns, the state is as
  before, and the only emit is one error event of the sending socket to itself: that socket
  gets it, and no other socket gets anything.
\<close>

theorem direct_message_failure:
  assumes "saved outcome = None"
  shows "\<exists>effs. direct_message sock (Some d) outcome s = Inr (s, effs)
           \<and> emits effs = [(ToSelf (socket_id sock), ErrorEvent ''Failed to send message'')]
           \<and> (\<forall>h. inbox rooms effs h
                  = (if h = socket_id sock then [ErrorEvent ''Failed to send message''] else []))"
  using assms by (auto simp add: direct_message_def inbox_def split: option.splits)

theorem direct_message_failure_witness:
  "saved FetchRejected = None
   \<and> (\<exists>effs. direct_message a1 (Some hello) FetchRejected two_devices_each
               = Inr (two_devices_each, effs)
           \<and> emits effs = [(ToSelf (socket_id a1), ErrorEvent ''Failed to send message'')]
           \<and> (\<forall>h. inbox own_rooms effs h
                  = (if h = socket_id a1 then [ErrorEvent ''Failed to send message''] else [])))"
  using direct_message_failure [of FetchRejected a1 hello two_devices_each own_rooms] by simp

text \<open>
  C7 as stated fails: the scope of the user alice has her second device, which is in the room
  of the user, and it gets no error event.
\<close>

theorem direct_message_failure_counterexample:
  "''a2'' \<in> set (handles two_devices_each (JStr ''alice''))
   \<and> ''user:alice'' \<in> set (own_rooms ''a2'')
   \<and> direct_message a1 (Some hello) FetchRejected two_devices_each
       = Inr (two_devices_each,
              [Fetch ''/api/chat/messages'' (JStr ''tokA'')
                 (MessageBody \<lparr>chatId = JStr ''c1'', content = JStr ''hi'', mediaUrl = JUndefined,
                               mediaType = JUndefined\<rparr>),
               Emit (ToSelf ''a1'') (ErrorEvent ''Failed to send message'')])
   \<and> inbox own_rooms
       [Fetch ''/api/chat/messages'' (JStr ''tokA'')
          (MessageBody \<lparr>chatId = JStr ''c1'', content = JStr ''hi'', mediaUrl = JUndefined,
                        mediaType = JUndefined\<rparr>),
        Emit (ToSelf ''a1'') (ErrorEvent ''Failed to send message'')] ''a2'' = []"
  by (simp add: fixtures connection_def Let_def handles_def has_def Set_add_def
      direct_message_def inbox_def)

section \<open>Typing\<close>

text \<open>
  C8, as the code has it. No operation puts a user into a typing set: whoever is in the typing
  set of a channel after an operation was in it before. Every typing event that an operation
  emits says \<^verbatim>\<open>isTyping: false\<close> and goes to the room of its channel. When the only handle of
  a user disconnects, in a state whose typing map has no key twice, the user is in no typing
  set afterwards, and the trace has the typing event of the user for a channel once if the
  user was in the typing set of that channel and not at all otherwise.
\<close>

theorem typing_only_stops:
  "(is_member (typingUsers (fst (step jwt_verify x s))) c v \<longrightarrow> is_member (typingUsers s) c v)
   \<and> ((t, ChannelTyping c v b) \<in> set (emits (snd (step jwt_verify x s)))
        \<longrightarrow> b = False \<and> t = ToRoom (''channel:'' @ c))
   \<and> (map_of (userSockets s) (user_id (data_user sock)) = Some [socket_id sock]
        \<and> distinct (map fst (typingUsers s))
        \<longrightarrow> \<not> is_member (typingUsers (fst (disconnect sock n1 n2 s))) c (user_id (data_user sock))
            \<and> count_list (snd (disconnect sock n1 n2 s))
                (Emit (ToRoom (''channel:'' @ c)) (ChannelTyping c (user_id (data_user sock)) False))
              = (if is_member (typingUsers s) c (user_id (data_user sock)) then 1 else 0))"
proof -
  let ?u = "user_id (data_user sock)"
  let ?L1 = "snd (remove_from_all ?u (community_left ?u) (communityMembers s))"
  let ?L2 = "snd (remove_from_all ?u (channel_left ?u) (channelMembers s))"
  let ?L3 = "snd (remove_from_all ?u (typing_stopped ?u) (typingUsers s))"
  have last: "\<not> is_member (typingUsers (fst (disconnect sock n1 n2 s))) c ?u
            \<and> count_list (snd (disconnect sock n1 n2 s)) (typing_stopped ?u c)
              = (if is_member (typingUsers s) c ?u then 1 else 0)"
    if only: "map_of (userSockets s) ?u = Some [socket_id sock]"
      and dt: "distinct (map fst (typingUsers s))"
  proof -
    have st: "typingUsers (fst (disconnect sock n1 n2 s))
                = fst (remove_from_all ?u (typing_stopped ?u) (typingUsers s))"
      and tr: "snd (disconnect sock n1 n2 s)
                = Emit ToAll (UserStatus ?u Offline n2) # ?L1 @ ?L2 @ ?L3"
      using only by (simp_all add: disconnect_closed_form Set_delete_def)
    have c3: "count_list ?L3 (typing_stopped ?u c) = (if is_member (typingUsers s) c ?u then 1 else 0)"
      by (rule count_list_removed [OF inj_typing_stopped dt])
    have z: "count_list ?L1 (typing_stopped ?u c) = 0" "count_list ?L2 (typing_stopped ?u c) = 0"
      by (rule count_list_removed_other,
          auto simp: community_left_def channel_left_def typing_stopped_def)+
    have "count_list (snd (disconnect sock n1 n2 s)) (typing_stopped ?u c)
            = (if is_member (typingUsers s) c ?u then 1 else 0)"
      by (simp add: tr c3 z) (simp add: typing_stopped_def)
    then show ?thesis
      by (simp add: st is_member_removed)
  qed
  show ?thesis
    using typing_never_added [of jwt_verify x s c v] typing_event_step [of t c v b jwt_verify x s]
      last [unfolded typing_stopped_def]
    by blast
qed

theorem typing_only_stops_witness:
  "is_member (typingUsers in_groups) ''general'' (JStr ''alice'')
   \<and> map_of (userSockets in_groups) (user_id (data_user a1)) = Some [socket_id a1]
   \<and> distinct (map fst (typingUsers in_groups))
   \<and> \<not> is_member (typingUsers (fst (disconnect a1 10 11 in_groups))) ''general'' (JStr ''alice'')
   \<and> count_list (snd (disconnect a1 10 11 in_groups))
        (Emit (ToRoom ''channel:general'') (ChannelTyping ''general'' (JStr ''alice'') False)) = 1"
proof -
  have h1: "map_of (userSockets in_groups) (user_id (data_user a1)) = Some [socket_id a1]"
    by (simp add: in_groups_def a1_def alice_def)
  have h2: "distinct (map fst (typingUsers in_groups))"
    by (simp add: in_groups_def)
  have m: "is_member (typingUsers in_groups) ''general'' (JStr ''alice'')"
    by (simp add: in_groups_def is_member_def has_def)
  show ?thesis
    using typing_only_stops [of "\<lambda>t. None" "OpDisconnect a1 10 11" in_groups "''general''"
        "JStr ''alice''" ToAll False a1 10 11] h1 h2 m
    by (simp add: a1_def alice_def)
qed

text \<open>
  C8 as stated fails: alice is online with two handles, and no operation at all, whatever its
  socket, name and payload, puts her into the typing set of a channel.
\<close>

theorem setTyping_counterexample:
  "online two_devices_each (JStr ''alice'')
   \<and> handles two_devices_each (JStr ''alice'') = [''a1'', ''a2'']
   \<and> \<not> (\<exists>x. is_member (typingUsers (fst (step (\<lambda>t. None) x two_devices_each))) ''general''
              (JStr ''alice''))"
proof -
  have "typingUsers two_devices_each = []"
    by (simp add: fixtures connection_groups)
  then have "\<not> is_member (typingUsers two_devices_each) ''general'' (JStr ''alice'')"
    by (simp add: is_member_def)
  then have "\<not> (\<exists>x. is_member (typingUsers (fst (step (\<lambda>t. None) x two_devices_each))) ''general''
              (JStr ''alice''))"
    by (auto dest: typing_never_added)
  moreover have "online two_devices_each (JStr ''alice'')"
    by (simp add: fixtures online_connection)
  moreover have "handles two_devices_each (JStr ''alice'') = [''a1'', ''a2'']"
    by (simp add: fixtures handles_connection Set_add_def) (simp add: handles_def)
  ultimately show ?thesis by simp
qed

section \<open>Joining a community again\<close>

text \<open>
  C9: the user is in the map \<open>m\<close> of the community \<open>c\<close>, and \<open>m\<close> has no key twice. After
  joining again the map of \<open>c\<close> has the size and the keys of \<open>m\<close>, in the same order, its
  only entry for the user is the snapshot written by this call, and the communities are the
  same as before.
\<close>

theorem rejoin_is_idempotent:
  assumes "map_of (communityMembers s) c = Some m"
    and "has m (user_id (data_user sock))"
    and "distinct (map fst m)"
  shows "length (members_of (communityMembers (fst (joinCommunity sock c now s))) c) = length m
       \<and> filter (\<lambda>p. fst p = user_id (data_user sock))
           (members_of (communityMembers (fst (joinCommunity sock c now s))) c)
         = [(user_id (data_user sock),
             \<lparr>m_id = user_id (data_user sock), m_name = user_name (data_user sock),
              m_image = user_image (data_user sock), m_status = Online, m_lastActive = now\<rparr>)]
       \<and> map fst (members_of (communityMembers (fst (joinCommunity sock c now s))) c) = map fst m
       \<and> map fst (communityMembers (fst (joinCommunity sock c now s))) = map fst (communityMembers s)"
proof -
  let ?u = "user_id (data_user sock)"
  let ?snap = "\<lparr>m_id = ?u, m_name = user_name (data_user sock),
              m_image = user_image (data_user sock), m_status = Online, m_lastActive = now\<rparr>"
  have cm: "communityMembers (fst (joinCommunity sock c now s))
              = AList.update c (AList.update ?u ?snap m) (communityMembers s)"
    using assms(1) by (simp add: joinCommunity_def Let_def has_def)
  have mem: "members_of (communityMembers (fst (joinCommunity sock c now s))) c
               = AList.update ?u ?snap m"
    by (simp add: cm members_of_def update_conv')
  have key: "?u \<in> fst ` set m"
    using assms(2) by (simp add: has_iff)
  have ckey: "c \<in> set (map fst (communityMembers s))"
    using assms(1) by (force dest: map_of_SomeD)
  have "length (AList.update ?u ?snap m) = length m"
    using key by (rule length_update_present)
  moreover have "filter (\<lambda>p. fst p = ?u) (AList.update ?u ?snap m) = [(?u, ?snap)]"
    using assms(3) by (rule filter_key_update)
  moreover have "map fst (AList.update ?u ?snap m) = map fst m"
    using key by (simp add: update_keys)
  moreover have "map fst (AList.update c (AList.update ?u ?snap m) (communityMembers s))
                   = map fst (communityMembers s)"
    using ckey by (simp add: update_keys)
  ultimately show ?thesis
    by (simp only: mem) (simp only: cm)
qed

theorem rejoin_is_idempotent_witness:
  "map_of (communityMembers in_groups) ''c1''
     = Some [(JStr ''alice'', \<lparr>m_id = JStr ''alice'', m_name = JStr ''Alice'', m_image = JUndefined,
                m_status = Online, m_lastActive = 6\<rparr>),
             (JStr ''bob'', \<lparr>m_id = JStr ''bob'', m_name = JStr ''Bob'', m_image = JUndefined,
                m_status = Online, m_lastActive = 8\<rparr>)]
   \<and> length (members_of (communityMembers (fst (joinCommunity a1 ''c1'' 12 in_groups))) ''c1'') = 2
   \<and> filter (\<lambda>p. fst p = JStr ''alice'')
        (members_of (communityMembers (fst (joinCommunity a1 ''c1'' 12 in_groups))) ''c1'')
      = [(JStr ''alice'', \<lparr>m_id = JStr ''alice'', m_name = JStr ''Alice'', m_image = JUndefined,
            m_status = Online, m_lastActive = 12\<rparr>)]"
proof -
  let ?m = "[(JStr ''alice'', \<lparr>m_id = JStr ''alice'', m_name = JStr ''Alice'', m_image = JUndefined,
                m_status = Online, m_lastActive = 6\<rparr>),
             (JStr ''bob'', \<lparr>m_id = JStr ''bob'', m_name = JStr ''Bob'', m_image = JUndefined,
                m_status = Online, m_lastActive = 8\<rparr>)]"
  have h1: "map_of (communityMembers in_groups) ''c1'' = Some ?m"
    by (simp add: in_groups_def)
  have h2: "has ?m (user_id (data_user a1))"
    by (simp add: has_def a1_def alice_def)
  have h3: "distinct (map fst ?m)"
    by simp
  show ?thesis
    using rejoin_is_idempotent [OF h1 h2 h3, of 12] h1
    by (simp add: a1_def alice_def)
qed

section \<open>The channel maps stay empty\<close>

text \<open>
  C10: after every sequence of operations from the start of the process, \<^verbatim>\<open>channelMembers\<close>
  and \<^verbatim>\<open>typingUsers\<close> are empty, and whatever operation comes next emits no channel
  member-left event and no typing event.
\<close>

theorem channel_indices_stay_empty:
  "channelMembers (run jwt_verify ops init_state) = []
   \<and> typingUsers (run jwt_verify ops init_state) = []
   \<and> filter channel_event (map snd (emits (snd (step jwt_verify x (run jwt_verify ops init_state))))) = []"
proof -
  have "no_channels init_state"
    by (simp add: no_channels_def init_state_def)
  then have "no_channels (run jwt_verify ops init_state)"
    by (rule no_channels_run)
  then show ?thesis
    using no_channel_event_step [of "run jwt_verify ops init_state" jwt_verify x]
    by (simp add: no_channels_def)
qed

end
